theory Spec2Isabelle
  imports Main "HOL-Library.Sublist"
begin

section \<open>ThreadAi payment service: entitlement reconciliation\<close>

text \<open>
  A shallow embedding of \<^verbatim>\<open>src/services/payment.js\<close> (class \<^verbatim>\<open>PaymentService\<close>).
  The service is asynchronous JavaScript running on a single event loop; every method
  is modelled as a function from a world to a result and a new world, where the result
  is either the thrown exception (\<open>Inl\<close>) or the returned value (\<open>Inr\<close>).

  Everything the service cannot decide by itself comes from an environment of oracles:
  the outcome of the \<open>n\<close>-th \<^verbatim>\<open>fetch\<close>, the value of the \<open>n\<close>-th clock read, whether the
  \<open>n\<close>-th \<^verbatim>\<open>chrome.storage\<close> call rejects, and the runtime's date and URI built-ins.
  Every \<^verbatim>\<open>fetch\<close> and every storage call is taken to settle, with an outcome of the
  oracle's choice. Calls to \<^verbatim>\<open>console\<close> are left out.
\<close>

subsection \<open>JavaScript values\<close>

text \<open>
  The JSON-shaped values the service handles: server answers, stored records and the
  status objects it returns. Objects are key/value lists in insertion order. Numbers are
  integers (millisecond timestamps and counters are all the service computes with), and
  arrays are left out: no code path of the service indexes one.
\<close>

datatype jsval =
    JUndefined
  | JNull
  | JBool bool
  | JNum int
  | JStr string
  | JObj "(string \<times> jsval) list"

text \<open>JavaScript truthiness, as used by \<^verbatim>\<open>if (x)\<close>, \<^verbatim>\<open>!x\<close>, \<^verbatim>\<open>x && y\<close> and \<^verbatim>\<open>x || y\<close>.\<close>

fun truthy :: "jsval \<Rightarrow> bool" where
  "truthy JUndefined = False"
| "truthy JNull = False"
| "truthy (JBool b) = b"
| "truthy (JNum n) = (n \<noteq> 0)"
| "truthy (JStr s) = (s \<noteq> [])"
| "truthy (JObj kvs) = True"

text \<open>
  Reading a property: of an object, the value stored under the key (the last binding
  wins, as in a parsed JSON text that repeats a key) or \<^verbatim>\<open>undefined\<close>; of a boolean,
  number or string, \<^verbatim>\<open>undefined\<close> for every key the service reads.
\<close>

fun field :: "jsval \<Rightarrow> string \<Rightarrow> jsval" where
  "field (JObj kvs) k = (case map_of (rev kvs) k of None \<Rightarrow> JUndefined | Some v \<Rightarrow> v)"
| "field v k = JUndefined"

fun digit_char :: "nat \<Rightarrow> char" where
  "digit_char n = char_of (48 + n)"

fun show_nat :: "nat \<Rightarrow> string" where
  "show_nat n = (if n < 10 then [digit_char n] else show_nat (n div 10) @ [digit_char (n mod 10)])"

declare show_nat.simps [simp del]

text \<open>String conversion, as done by a template literal and by \<^verbatim>\<open>new Error(x)\<close>.\<close>

fun to_str :: "jsval \<Rightarrow> string" where
  "to_str JUndefined = ''undefined''"
| "to_str JNull = ''null''"
| "to_str (JBool b) = (if b then ''true'' else ''false'')"
| "to_str (JNum n) = (if n < 0 then ''-'' @ show_nat (nat (- n)) else show_nat (nat n))"
| "to_str (JStr s) = s"
| "to_str (JObj kvs) = ''[object Object]''"

text \<open>\<^verbatim>\<open>s.includes(sub)\<close>: \<open>sub\<close> occurs in \<open>s\<close> as a contiguous run.\<close>

definition str_includes :: "string \<Rightarrow> string \<Rightarrow> bool" where
  "str_includes s sub = sublist sub s"

subsection \<open>Exceptions and the effect type\<close>

text \<open>
  Every exception the service can see is an \<^verbatim>\<open>Error\<close> object, of which only the message
  is ever read. \<^verbatim>\<open>makeWorkerRequest\<close> ends with \<^verbatim>\<open>throw lastError\<close>, and \<^verbatim>\<open>lastError\<close>
  starts out \<^verbatim>\<open>undefined\<close>, so a thrown \<^verbatim>\<open>undefined\<close> is a value of the type too.
\<close>

datatype js_error = Error string | Thrown_undefined

subsection \<open>Requests, responses and the trace\<close>

record request =
  url :: string
  http_method :: string
  headers :: "(string \<times> string) list"
  body :: jsval

text \<open>
  \<^verbatim>\<open>body: JSON.stringify(x)\<close> is modelled by the value \<open>x\<close> itself. A response body either
  parses as JSON, or \<^verbatim>\<open>response.json()\<close> rejects with the given message.
\<close>

datatype response_body = Json jsval | NotJson string

datatype response = Response (status: nat) (statusText: string) (payload: response_body)

datatype fetch_outcome = Rejects string | Resolves response

definition response_ok :: "response \<Rightarrow> bool" where
  "response_ok r = (200 \<le> status r \<and> status r \<le> 299)"

text \<open>What an execution does to the outside, in order.\<close>

datatype event =
    Fetched request fetch_outcome
  | Slept nat
  | LocalSet "(string \<times> jsval) list"
  | LocalRemove "string list"
  | SyncSet "(string \<times> jsval) list"

subsection \<open>The environment and the world\<close>

record env =
  fetch_oracle :: "nat \<Rightarrow> request \<Rightarrow> fetch_outcome"
  clock_oracle :: "nat \<Rightarrow> int"
  storage_oracle :: "nat \<Rightarrow> string option"
  parseDate :: "string \<Rightarrow> int option"
  toISOString :: "int \<Rightarrow> string"
  toLocaleDateString :: "int option \<Rightarrow> string"
  addDays :: "int \<Rightarrow> int \<Rightarrow> int"
  encodeURIComponent :: "string \<Rightarrow> js_error + string"

text \<open>
  \<^item> \<open>fetch_oracle env n req\<close>: the outcome of the \<open>n\<close>-th \<^verbatim>\<open>fetch\<close> of the execution;
  \<^item> \<open>clock_oracle env n\<close>: the milliseconds read by the \<open>n\<close>-th \<^verbatim>\<open>Date.now()\<close> or
    \<^verbatim>\<open>new Date()\<close>;
  \<^item> \<open>storage_oracle env n\<close>: \<open>Some msg\<close> when the \<open>n\<close>-th \<^verbatim>\<open>chrome.storage\<close> call rejects
    with that message;
  \<^item> \<open>parseDate\<close>: \<^verbatim>\<open>Date.parse\<close> on a string, \<open>None\<close> for an invalid date;
  \<^item> \<open>addDays t d\<close>: \<^verbatim>\<open>setDate(getDate() + d)\<close> on the date \<open>t\<close> (calendar days in the
    local time zone);
  \<^item> \<open>toISOString\<close>, \<open>toLocaleDateString\<close>, \<open>encodeURIComponent\<close>: the built-ins of
    those names (\<open>toLocaleDateString None\<close> is the text of an invalid date).
\<close>

record world =
  local_storage :: "string \<Rightarrow> jsval"
  sync_storage :: "string \<Rightarrow> jsval"
  statusCache :: jsval
  cacheTimestamp :: int
  fetches :: nat
  clock_reads :: nat
  storage_ops :: nat
  trace :: "event list"

text \<open>
  \<open>local_storage\<close> and \<open>sync_storage\<close> are \<^verbatim>\<open>chrome.storage.local\<close> and
  \<^verbatim>\<open>chrome.storage.sync\<close> (an absent key reads \<^verbatim>\<open>undefined\<close>); \<open>statusCache\<close> and
  \<open>cacheTimestamp\<close> are the fields of the service object. A world is taken after the
  constructor's \<^verbatim>\<open>initializeDeviceToken\<close> has settled, so \<^verbatim>\<open>await this.initPromise\<close> is
  a step without effect.
\<close>

type_synonym 'a io = "world \<Rightarrow> (js_error + 'a) \<times> world"

definition io_return :: "'a \<Rightarrow> 'a io" where
  "io_return x = (\<lambda>w. (Inr x, w))"

definition io_throw :: "js_error \<Rightarrow> 'a io" where
  "io_throw e = (\<lambda>w. (Inl e, w))"

definition io_bind :: "'a io \<Rightarrow> ('a \<Rightarrow> 'b io) \<Rightarrow> 'b io" where
  "io_bind m f = (\<lambda>w. case m w of (Inl e, w') \<Rightarrow> (Inl e, w') | (Inr x, w') \<Rightarrow> f x w')"

text \<open>Reading a field of the service object.\<close>

definition io_gets :: "(world \<Rightarrow> 'a) \<Rightarrow> 'a io" where
  "io_gets f = (\<lambda>w. (Inr (f w), w))"

text \<open>\<^verbatim>\<open>try { m } catch (e) { h e }\<close>\<close>

definition io_catch :: "'a io \<Rightarrow> (js_error \<Rightarrow> 'a io) \<Rightarrow> 'a io" where
  "io_catch m h = (\<lambda>w. case m w of (Inl e, w') \<Rightarrow> h e w' | (Inr x, w') \<Rightarrow> (Inr x, w'))"

subsection \<open>Primitive effects\<close>

definition dateNow :: "env \<Rightarrow> int io" where
  "dateNow env = (\<lambda>w. (Inr (clock_oracle env (clock_reads w)),
                       w\<lparr>clock_reads := Suc (clock_reads w)\<rparr>))"

text \<open>
  \<^verbatim>\<open>new Date(v)\<close> as milliseconds, \<open>None\<close> for an invalid date (whose \<^verbatim>\<open>getTime()\<close> is
  \<^verbatim>\<open>NaN\<close>).
\<close>

fun newDate :: "env \<Rightarrow> jsval \<Rightarrow> int option" where
  "newDate env JUndefined = None"
| "newDate env JNull = Some 0"
| "newDate env (JBool b) = Some (if b then 1 else 0)"
| "newDate env (JNum n) = (if \<bar>n\<bar> \<le> 8640000000000000 then Some n else None)"
| "newDate env (JStr s) = parseDate env s"
| "newDate env (JObj kvs) = parseDate env ''[object Object]''"

text \<open>\<^verbatim>\<open>now < trialEnd\<close> on dates: a comparison with \<^verbatim>\<open>NaN\<close> is false.\<close>

fun date_before :: "int \<Rightarrow> int option \<Rightarrow> bool" where
  "date_before now None = False"
| "date_before now (Some e) = (now < e)"

definition storage_local_get :: "env \<Rightarrow> string list \<Rightarrow> (string \<Rightarrow> jsval) io" where
  "storage_local_get env keys = (\<lambda>w.
     let w' = w\<lparr>storage_ops := Suc (storage_ops w)\<rparr> in
     case storage_oracle env (storage_ops w) of
       Some msg \<Rightarrow> (Inl (Error msg), w')
     | None \<Rightarrow> (Inr (\<lambda>k. if k \<in> set keys then local_storage w k else JUndefined), w'))"

definition write_items :: "(string \<times> jsval) list \<Rightarrow> (string \<Rightarrow> jsval) \<Rightarrow> (string \<Rightarrow> jsval)" where
  "write_items items store = fold (\<lambda>(k, v) s. s(k := v)) items store"

definition storage_local_set :: "env \<Rightarrow> (string \<times> jsval) list \<Rightarrow> unit io" where
  "storage_local_set env items = (\<lambda>w.
     let w' = w\<lparr>storage_ops := Suc (storage_ops w)\<rparr> in
     case storage_oracle env (storage_ops w) of
       Some msg \<Rightarrow> (Inl (Error msg), w')
     | None \<Rightarrow> (Inr (), w'\<lparr>local_storage := write_items items (local_storage w),
                            trace := trace w @ [LocalSet items]\<rparr>))"

definition storage_local_remove :: "env \<Rightarrow> string list \<Rightarrow> unit io" where
  "storage_local_remove env keys = (\<lambda>w.
     let w' = w\<lparr>storage_ops := Suc (storage_ops w)\<rparr> in
     case storage_oracle env (storage_ops w) of
       Some msg \<Rightarrow> (Inl (Error msg), w')
     | None \<Rightarrow> (Inr (), w'\<lparr>local_storage := (\<lambda>k. if k \<in> set keys then JUndefined else local_storage w k),
                            trace := trace w @ [LocalRemove keys]\<rparr>))"

definition storage_sync_set :: "env \<Rightarrow> (string \<times> jsval) list \<Rightarrow> unit io" where
  "storage_sync_set env items = (\<lambda>w.
     let w' = w\<lparr>storage_ops := Suc (storage_ops w)\<rparr> in
     case storage_oracle env (storage_ops w) of
       Some msg \<Rightarrow> (Inl (Error msg), w')
     | None \<Rightarrow> (Inr (), w'\<lparr>sync_storage := write_items items (sync_storage w),
                            trace := trace w @ [SyncSet items]\<rparr>))"

definition fetch :: "env \<Rightarrow> request \<Rightarrow> response io" where
  "fetch env req = (\<lambda>w.
     let out = fetch_oracle env (fetches w) req;
         w' = w\<lparr>fetches := Suc (fetches w), trace := trace w @ [Fetched req out]\<rparr>
     in case out of
          Rejects msg \<Rightarrow> (Inl (Error msg), w')
        | Resolves r \<Rightarrow> (Inr r, w'))"

definition response_json :: "response \<Rightarrow> jsval io" where
  "response_json r = (case payload r of Json v \<Rightarrow> io_return v | NotJson msg \<Rightarrow> io_throw (Error msg))"

text \<open>\<^verbatim>\<open>await new Promise(resolve => setTimeout(resolve, delay))\<close>\<close>

definition setTimeout :: "nat \<Rightarrow> unit io" where
  "setTimeout delay = (\<lambda>w. (Inr (), w\<lparr>trace := trace w @ [Slept delay]\<rparr>))"

text \<open>
  Reading a property of a value that may be \<^verbatim>\<open>null\<close> or \<^verbatim>\<open>undefined\<close> throws a
  \<^verbatim>\<open>TypeError\<close>.
\<close>

definition get_prop :: "jsval \<Rightarrow> string \<Rightarrow> jsval io" where
  "get_prop v k = (if v = JNull \<or> v = JUndefined
               then io_throw (Error (''Cannot read properties of '' @ to_str v))
               else io_return (field v k))"

subsection \<open>Constants of the constructor\<close>

definition WORKER_URL :: string where
  "WORKER_URL = ''https://lemon-worker.bhaveshlalvani000.workers.dev''"

definition TRIAL_DURATION_DAYS :: int where
  "TRIAL_DURATION_DAYS = 3"

definition DEVICE_TOKEN_KEY :: string where
  "DEVICE_TOKEN_KEY = ''deviceToken''"

definition SUBSCRIPTION_KEY :: string where
  "SUBSCRIPTION_KEY = ''subscription''"

definition TRIAL_KEY :: string where
  "TRIAL_KEY = ''trial''"

definition TRIAL_USED_FLAG :: string where
  "TRIAL_USED_FLAG = ''trialEverUsed''"

definition CACHE_DURATION :: int where
  "CACHE_DURATION = 30000"

subsection \<open>The retried worker request\<close>

text \<open>
  The \<^verbatim>\<open>options\<close> argument of \<^verbatim>\<open>makeWorkerRequest\<close>: the three fields its callers and
  its body use. An absent \<^verbatim>\<open>headers\<close> is the empty list, an absent \<^verbatim>\<open>body\<close> is
  \<^verbatim>\<open>undefined\<close>.
\<close>

record options =
  opt_method :: "string option"
  opt_headers :: "(string \<times> string) list"
  opt_body :: jsval

definition no_options :: options where
  "no_options = \<lparr>opt_method = None, opt_headers = [], opt_body = JUndefined\<rparr>"

text \<open>
  Object spread \<^verbatim>\<open>{...base, ...over}\<close> on key/value lists: a key of \<open>over\<close> replaces the
  value of the same key in \<open>base\<close>, or is added at the end.
\<close>

fun put_key :: "string \<Rightarrow> 'v \<Rightarrow> (string \<times> 'v) list \<Rightarrow> (string \<times> 'v) list" where
  "put_key k v [] = [(k, v)]"
| "put_key k v ((k', v') # kvs) = (if k = k' then (k, v) # kvs else (k', v') # put_key k v kvs)"

fun spread :: "(string \<times> 'v) list \<Rightarrow> (string \<times> 'v) list \<Rightarrow> (string \<times> 'v) list" where
  "spread base [] = base"
| "spread base ((k, v) # over) = spread (put_key k v base) over"

text \<open>
  The argument of \<^verbatim>\<open>fetch\<close> in \<^verbatim>\<open>makeWorkerRequest\<close>:
  \<^verbatim>\<open>{...options, headers: {'Content-Type': 'application/json', ...options.headers}}\<close>;
  a request without a method is a GET.
\<close>

definition worker_request :: "string \<Rightarrow> options \<Rightarrow> request" where
  "worker_request endpoint opts =
     \<lparr>url = WORKER_URL @ endpoint,
      http_method = (case opt_method opts of None \<Rightarrow> ''GET'' | Some m \<Rightarrow> m),
      headers = spread [(''Content-Type'', ''application/json'')] (opt_headers opts),
      body = opt_body opts\<rparr>"

text \<open>What one attempt makes of the outcome of its \<^verbatim>\<open>fetch\<close> (the body of the \<^verbatim>\<open>try\<close>).\<close>

definition attempt_result :: "response \<Rightarrow> jsval io" where
  "attempt_result response =
     (if \<not> response_ok response
      then io_throw (Error (''HTTP '' @ show_nat (status response) @ '': '' @ statusText response))
      else response_json response)"

definition makeWorkerRequest_attempt :: "env \<Rightarrow> string \<Rightarrow> options \<Rightarrow> jsval io" where
  "makeWorkerRequest_attempt env endpoint opts =
     io_bind (fetch env (worker_request endpoint opts)) attempt_result"

definition maxRetries :: nat where
  "maxRetries = 3"

text \<open>
  The \<^verbatim>\<open>for (let attempt = 1; attempt <= maxRetries; attempt++)\<close> loop, with
  \<^verbatim>\<open>lastError\<close> as an argument; after the loop, \<^verbatim>\<open>throw lastError\<close>.
\<close>

function makeWorkerRequest_loop ::
  "env \<Rightarrow> string \<Rightarrow> options \<Rightarrow> nat \<Rightarrow> js_error \<Rightarrow> world \<Rightarrow> (js_error + jsval) \<times> world" where
  "makeWorkerRequest_loop env endpoint opts attempt lastError w =
     (if attempt \<le> maxRetries then
        (case makeWorkerRequest_attempt env endpoint opts w of
           (Inr v, w1) \<Rightarrow> (Inr v, w1)
         | (Inl error, w1) \<Rightarrow>
             makeWorkerRequest_loop env endpoint opts (Suc attempt) error
               (if attempt < maxRetries
                then snd (setTimeout (2 ^ (attempt - 1) * 1000) w1)
                else w1))
      else (Inl lastError, w))"
  by pat_completeness auto
termination
  by (relation "measure (\<lambda>(env, endpoint, opts, attempt, lastError, w). Suc maxRetries - attempt)")
     auto

declare makeWorkerRequest_loop.simps [simp del]

definition makeWorkerRequest :: "env \<Rightarrow> string \<Rightarrow> options \<Rightarrow> jsval io" where
  "makeWorkerRequest env endpoint opts = makeWorkerRequest_loop env endpoint opts 1 Thrown_undefined"

subsection \<open>Device token and server status\<close>

definition getDeviceToken :: "env \<Rightarrow> jsval io" where
  "getDeviceToken env =
     io_catch
       (io_bind (storage_local_get env [DEVICE_TOKEN_KEY]) (\<lambda>result.
          io_return (result DEVICE_TOKEN_KEY)))
       (\<lambda>error. io_return JNull)"

text \<open>\<^verbatim>\<open>_checkServerStatus\<close> (an Isabelle name cannot start with an underscore).\<close>

definition checkServerStatus :: "env \<Rightarrow> jsval io" where
  "checkServerStatus env =
     io_bind (getDeviceToken env) (\<lambda>deviceToken.
       if \<not> truthy deviceToken then io_throw (Error ''No device token available'')
       else
         io_catch
           (io_bind (makeWorkerRequest env (''/check?token='' @ to_str deviceToken) no_options) (\<lambda>data.
            io_bind (storage_local_set env [(SUBSCRIPTION_KEY, data)]) (\<lambda>_.
              io_return data)))
           (\<lambda>error. io_throw error))"

text \<open>\<^verbatim>\<open>_getLocalData\<close>\<close>

definition getLocalData :: "env \<Rightarrow> (jsval \<times> jsval) io" where
  "getLocalData env =
     io_bind (storage_local_get env [SUBSCRIPTION_KEY, TRIAL_KEY]) (\<lambda>result.
       io_return (result SUBSCRIPTION_KEY, result TRIAL_KEY))"

definition clearStatusCache :: "unit io" where
  "clearStatusCache = (\<lambda>w. (Inr (), w\<lparr>statusCache := JNull, cacheTimestamp := 0\<rparr>))"

subsection \<open>Status objects\<close>

text \<open>The object literals that \<^verbatim>\<open>getUnifiedSubscriptionStatus\<close> returns, in source order.\<close>

definition status_trial_active :: "jsval \<Rightarrow> jsval" where
  "status_trial_active ends =
     JObj [(''active'', JBool False), (''plan'', JStr ''trial''), (''isTrialing'', JBool True),
           (''trialEndsAt'', ends), (''message'', JStr ''Free trial active'')]"

definition status_trial_expired :: "jsval \<Rightarrow> jsval" where
  "status_trial_expired ends =
     JObj [(''active'', JBool False), (''plan'', JStr ''trial_expired''), (''isTrialing'', JBool False),
           (''trialEndsAt'', ends), (''message'', JStr ''Trial expired'')]"

definition status_corrupted_date :: "jsval \<Rightarrow> jsval" where
  "status_corrupted_date ends =
     JObj [(''active'', JBool False), (''plan'', JStr ''trial_expired''), (''isTrialing'', JBool False),
           (''trialEndsAt'', ends), (''message'', JStr ''Trial expired (corrupted date)'')]"

definition status_date_parsing_error :: jsval where
  "status_date_parsing_error =
     JObj [(''active'', JBool False), (''plan'', JStr ''trial_expired''), (''isTrialing'', JBool False),
           (''message'', JStr ''Trial expired (date parsing error)'')]"

definition status_trial_denied :: "string \<Rightarrow> jsval" where
  "status_trial_denied details =
     JObj [(''active'', JBool False), (''plan'', JStr ''trial_denied''), (''isTrialing'', JBool False),
           (''message'', JStr ''Trial not available''), (''errorDetails'', JStr details)]"

definition status_unverified :: "string \<Rightarrow> jsval" where
  "status_unverified details =
     JObj [(''active'', JBool False), (''plan'', JStr ''error''), (''isTrialing'', JBool False),
           (''message'', JStr ''Unable to verify trial status''), (''errorDetails'', JStr details)]"

definition status_check_failed :: jsval where
  "status_check_failed =
     JObj [(''active'', JBool False), (''plan'', JStr ''error''), (''isTrialing'', JBool False),
           (''message'', JStr ''Error checking subscription'')]"

text \<open>\<^verbatim>\<open>this.statusCache = result; this.cacheTimestamp = Date.now(); return result;\<close>\<close>

definition cache_and_return :: "env \<Rightarrow> jsval \<Rightarrow> jsval io" where
  "cache_and_return env result = (\<lambda>w.
     (Inr result, w\<lparr>statusCache := result,
                     cacheTimestamp := clock_oracle env (clock_reads w),
                     clock_reads := Suc (clock_reads w)\<rparr>))"

subsection \<open>Starting a trial\<close>

definition trial_request :: "string \<Rightarrow> jsval \<Rightarrow> request" where
  "trial_request endpoint content =
     \<lparr>url = WORKER_URL @ endpoint, http_method = ''POST'',
      headers = [(''Content-Type'', ''application/json'')], body = content\<rparr>"

text \<open>The message \<^verbatim>\<open>startTrial\<close> throws when \<^verbatim>\<open>/trial/check\<close> does not allow a trial.\<close>

definition denial_message :: "env \<Rightarrow> jsval \<Rightarrow> string" where
  "denial_message env trialCheck =
     (if field trialCheck ''reason'' = JStr ''device_already_used'' then
        ''This device has already used a free trial on ''
          @ toLocaleDateString env (newDate env (field trialCheck ''usedAt''))
          @ ''. Please upgrade to continue.''
      else if field trialCheck ''reason'' = JStr ''ip_limit_exceeded'' then
        (if truthy (field trialCheck ''message'') then to_str (field trialCheck ''message'')
         else ''A trial has already been used from this network. Please upgrade to continue using ThreadAi.'')
      else if field trialCheck ''reason'' = JStr ''server_error'' then
        ''Unable to verify trial eligibility. Please try again later.''
      else ''You have already used your free trial. Please upgrade to continue using ThreadAi.'')"

text \<open>
  \<^verbatim>\<open>startTrial\<close>, lines 418--518. The text of a failed registration response
  (\<^verbatim>\<open>errorText\<close>) is only logged and is left out. The four \<^verbatim>\<open>new Date()\<close> of the
  method are four clock reads, in the order of evaluation.
\<close>

definition startTrial :: "env \<Rightarrow> jsval io" where
  "startTrial env =
     io_catch
      (io_bind (getDeviceToken env) (\<lambda>deviceToken.
       if \<not> truthy deviceToken then io_throw (Error ''No device token available'')
       else
       io_bind (fetch env (trial_request ''/trial/check'' (JObj [(''deviceToken'', deviceToken)])))
         (\<lambda>trialCheckResponse.
       if \<not> response_ok trialCheckResponse then
         io_throw (Error ''Unable to connect to trial verification server. Please check your internet connection and try again.'')
       else
       io_bind (response_json trialCheckResponse) (\<lambda>trialCheck.
       io_bind (get_prop trialCheck ''allowed'') (\<lambda>allowed.
       if \<not> truthy allowed then io_throw (Error (denial_message env trialCheck))
       else
       io_bind (dateNow env) (\<lambda>today.
       let trialEndsAt = addDays env today TRIAL_DURATION_DAYS in
       io_bind (fetch env (trial_request ''/trial/register''
                  (JObj [(''deviceToken'', deviceToken),
                         (''trialEndsAt'', JStr (toISOString env trialEndsAt))])))
         (\<lambda>registerResponse.
       if \<not> response_ok registerResponse then
         io_throw (Error ''Failed to register trial with server. Please try again.'')
       else
       io_bind (response_json registerResponse) (\<lambda>registerResult.
       io_bind (get_prop registerResult ''success'') (\<lambda>success.
       if \<not> truthy success then
         io_throw (Error (if truthy (field registerResult ''error'')
                          then to_str (field registerResult ''error'')
                          else ''Trial registration failed''))
       else
       io_bind (dateNow env) (\<lambda>startedAt.
       let trialData = JObj [(''deviceToken'', deviceToken),
                             (''trialEndsAt'', JStr (toISOString env trialEndsAt)),
                             (''startedAt'', JStr (toISOString env startedAt)),
                             (''isTrialing'', JBool True),
                             (''serverVerified'', JBool True)] in
       io_bind (dateNow env) (\<lambda>firstUsedAt.
       io_bind (storage_local_set env
                  [(TRIAL_KEY, trialData),
                   (TRIAL_USED_FLAG, JObj [(''used'', JBool True),
                                           (''firstUsedAt'', JStr (toISOString env firstUsedAt)),
                                           (''deviceToken'', deviceToken)])]) (\<lambda>_.
       io_bind (io_catch
                  (io_bind (dateNow env) (\<lambda>firstUsed.
                     storage_sync_set env
                       [(''persistent_device_token'', deviceToken),
                        (''trial_first_used'', JStr (toISOString env firstUsed))]))
                  (\<lambda>syncError. io_return ())) (\<lambda>_.
       io_return trialData)))))))))))))
      (\<lambda>error. io_throw error)"

subsection \<open>The unified subscription status\<close>

text \<open>
  \<^verbatim>\<open>getUnifiedSubscriptionStatus\<close> is one long method; its blocks are named here in the
  order of the source. A block that may return from the method yields \<open>Some result\<close> when
  it does and \<open>None\<close> when control falls through to the next block.

  Lines 166--217, the body of the \<^verbatim>\<open>try\<close> that asks the server for an existing trial:
\<close>

definition restoreServerTrial :: "env \<Rightarrow> jsval \<Rightarrow> jsval option io" where
  "restoreServerTrial env deviceToken =
     io_bind (makeWorkerRequest env ''/trial/status''
                \<lparr>opt_method = Some ''POST'', opt_headers = [],
                 opt_body = JObj [(''deviceToken'', deviceToken)]\<rparr>) (\<lambda>serverTrialCheck.
     io_bind (get_prop serverTrialCheck ''hasTrial'') (\<lambda>hasTrial.
     if truthy hasTrial then
       let trialData = JObj [(''deviceToken'', deviceToken),
                             (''trialEndsAt'', field serverTrialCheck ''trialEndsAt''),
                             (''startedAt'', field serverTrialCheck ''startedAt''),
                             (''isTrialing'', JBool True),
                             (''serverVerified'', JBool True),
                             (''restoredFromServer'', JBool True)] in
       io_bind (storage_local_set env [(TRIAL_KEY, trialData)]) (\<lambda>_.
       io_bind (dateNow env) (\<lambda>now.
       let trialEnd = newDate env (field serverTrialCheck ''trialEndsAt'') in
       if date_before now trialEnd then
         io_bind (cache_and_return env (status_trial_active (field serverTrialCheck ''trialEndsAt'')))
           (\<lambda>result. io_return (Some result))
       else
         io_bind (cache_and_return env (status_trial_expired (field serverTrialCheck ''trialEndsAt'')))
           (\<lambda>result. io_return (Some result))))
     else io_return None))"

text \<open>Lines 165--222: the guarded, caught request for a trial the server knows.\<close>

definition checkServerTrial :: "env \<Rightarrow> jsval \<Rightarrow> jsval option io" where
  "checkServerTrial env deviceToken =
     (if truthy deviceToken
      then io_catch (restoreServerTrial env deviceToken) (\<lambda>error. io_return None)
      else io_return None)"

text \<open>Lines 236--301, entered when the local trial record is truthy:\<close>

definition checkLocalTrial :: "env \<Rightarrow> jsval \<Rightarrow> jsval io" where
  "checkLocalTrial env localTrial =
     io_catch
       (io_bind (dateNow env) (\<lambda>now.
        let trialEnd = newDate env (field localTrial ''trialEndsAt'') in
        if trialEnd = None then
          cache_and_return env (status_corrupted_date (field localTrial ''trialEndsAt''))
        else if date_before now trialEnd then
          cache_and_return env (status_trial_active (field localTrial ''trialEndsAt''))
        else
          cache_and_return env (status_trial_expired (field localTrial ''trialEndsAt''))))
       (\<lambda>dateError. cache_and_return env status_date_parsing_error)"

text \<open>Lines 308--337, the pre-check before a new trial:\<close>

definition precheck_details :: "jsval \<Rightarrow> string" where
  "precheck_details checkResult =
     (if field checkResult ''reason'' = JStr ''device_already_used''
      then ''This device has already used a free trial''
      else ''A trial has already been used from this network'')"

definition trialPrecheck :: "env \<Rightarrow> jsval \<Rightarrow> jsval option io" where
  "trialPrecheck env deviceToken =
     (if truthy deviceToken then
        io_catch
          (io_bind (fetch env (trial_request ''/trial/check'' (JObj [(''deviceToken'', deviceToken)])))
             (\<lambda>checkResponse.
           if response_ok checkResponse then
             io_bind (response_json checkResponse) (\<lambda>checkResult.
             io_bind (get_prop checkResult ''allowed'') (\<lambda>allowed.
             if \<not> truthy allowed then
               io_bind (cache_and_return env (status_trial_denied (precheck_details checkResult)))
                 (\<lambda>result. io_return (Some result))
             else io_return None))
           else io_return None))
          (\<lambda>checkError. io_return None)
      else io_return None)"

text \<open>
  Lines 340--386. \<^verbatim>\<open>trialError.message\<close> is a \<^verbatim>\<open>TypeError\<close> when \<^verbatim>\<open>trialError\<close> is
  \<^verbatim>\<open>undefined\<close>.
\<close>

definition error_message :: "js_error \<Rightarrow> string io" where
  "error_message e =
     (case e of
        Error msg \<Rightarrow> io_return msg
      | Thrown_undefined \<Rightarrow> io_throw (Error ''Cannot read properties of undefined''))"

definition tryStartTrial :: "env \<Rightarrow> jsval io" where
  "tryStartTrial env =
     io_catch
       (io_bind (startTrial env) (\<lambda>trialData.
          cache_and_return env (status_trial_active (field trialData ''trialEndsAt''))))
       (\<lambda>trialError.
          io_bind (error_message trialError) (\<lambda>message.
          let isDenied = str_includes message ''already used'' \<or>
                         str_includes message ''limit exceeded'' \<or>
                         str_includes message ''upgrade to continue'' in
          if isDenied then cache_and_return env (status_trial_denied message)
          else cache_and_return env (status_unverified message)))"

text \<open>Lines 227--386: the decision on the local subscription and trial records.\<close>

definition localFallback :: "env \<Rightarrow> jsval \<Rightarrow> jsval \<times> jsval \<Rightarrow> jsval io" where
  "localFallback env deviceToken localData =
     (case localData of (localSubscription, localTrial) \<Rightarrow>
        if truthy localSubscription \<and> truthy (field localSubscription ''active'') then
          cache_and_return env localSubscription
        else if truthy localTrial then checkLocalTrial env localTrial
        else
          io_bind (trialPrecheck env deviceToken) (\<lambda>denied.
          case denied of
            Some result \<Rightarrow> io_return result
          | None \<Rightarrow> tryStartTrial env))"

text \<open>Lines 144--386: everything after the cache test.\<close>

definition refreshStatus :: "env \<Rightarrow> jsval io" where
  "refreshStatus env =
     io_bind (io_catch (checkServerStatus env) (\<lambda>error. io_return JNull)) (\<lambda>serverStatus.
     if truthy serverStatus \<and> truthy (field serverStatus ''active'') then
       cache_and_return env serverStatus
     else
     io_bind (getDeviceToken env) (\<lambda>deviceToken.
     io_bind (checkServerTrial env deviceToken) (\<lambda>restored.
     case restored of
       Some result \<Rightarrow> io_return result
     | None \<Rightarrow> io_bind (getLocalData env) (localFallback env deviceToken))))"

text \<open>
  The cache test of line 139, and the body of the outer \<^verbatim>\<open>try\<close> (lines 137--386) with
  its \<^verbatim>\<open>catch\<close> (lines 387--400).
\<close>

definition cache_is_fresh :: "bool \<Rightarrow> int \<Rightarrow> world \<Rightarrow> bool" where
  "cache_is_fresh forceRefresh now w =
     (\<not> forceRefresh \<and> truthy (statusCache w) \<and> now - cacheTimestamp w < CACHE_DURATION)"

definition getUnifiedSubscriptionStatus_try :: "env \<Rightarrow> bool \<Rightarrow> jsval io" where
  "getUnifiedSubscriptionStatus_try env forceRefresh =
     io_bind (dateNow env) (\<lambda>now.
     io_bind (io_gets (cache_is_fresh forceRefresh now)) (\<lambda>fresh.
     if fresh then io_gets statusCache else refreshStatus env))"

definition getUnifiedSubscriptionStatus :: "env \<Rightarrow> bool \<Rightarrow> jsval io" where
  "getUnifiedSubscriptionStatus env forceRefresh =
     io_catch (getUnifiedSubscriptionStatus_try env forceRefresh)
       (\<lambda>error. cache_and_return env status_check_failed)"

subsection \<open>The usage gate and the checkout URL\<close>

definition gate_result :: "bool \<Rightarrow> string \<Rightarrow> jsval \<Rightarrow> jsval" where
  "gate_result canUse reason st =
     JObj [(''canUse'', JBool canUse), (''reason'', JStr reason), (''status'', st)]"

text \<open>
  \<^verbatim>\<open>status.errorDetails && (status.errorDetails.includes(..) || ..)\<close>: calling
  \<^verbatim>\<open>includes\<close> on a truthy value that is not a string is a \<^verbatim>\<open>TypeError\<close>.
\<close>

definition isServerDenial :: "jsval \<Rightarrow> bool io" where
  "isServerDenial errorDetails =
     (if \<not> truthy errorDetails then io_return False
      else case errorDetails of
             JStr s \<Rightarrow> io_return (str_includes s ''already used'' \<or>
                                  str_includes s ''Too many trials'' \<or>
                                  str_includes s ''Please upgrade'' \<or>
                                  str_includes s ''upgrade to continue'')
           | _ \<Rightarrow> io_throw (Error ''status.errorDetails.includes is not a function''))"

definition canUseExtension :: "env \<Rightarrow> jsval io" where
  "canUseExtension env =
     io_catch
       (io_bind (getUnifiedSubscriptionStatus env False) (\<lambda>st.
        io_bind (get_prop st ''active'') (\<lambda>active.
        if truthy active then io_return (gate_result True ''subscription'' st)
        else if truthy (field st ''isTrialing'') then io_return (gate_result True ''trial'' st)
        else if field st ''plan'' = JStr ''error'' \<and> field st ''message'' = JStr ''Error starting trial'' then
          io_bind (isServerDenial (field st ''errorDetails'')) (\<lambda>denied.
          if denied then io_return (gate_result False ''trial_denied'' st)
          else io_return (gate_result True ''trial_fallback'' st))
        else io_return (gate_result False ''trial_expired'' st))))
       (\<lambda>error. io_return (gate_result False ''error'' JNull))"

definition checkout_base_url :: string where
  "checkout_base_url = ''https://thread-ai.lemonsqueezy.com/buy/2dca2dc4-9d06-4650-9ad3-983dec0c33dd''"

definition encode_component :: "env \<Rightarrow> string \<Rightarrow> string io" where
  "encode_component env s =
     (case encodeURIComponent env s of Inl e \<Rightarrow> io_throw e | Inr t \<Rightarrow> io_return t)"

definition generateCheckoutUrl :: "env \<Rightarrow> jsval \<Rightarrow> jsval \<Rightarrow> string io" where
  "generateCheckoutUrl env email plan =
     io_bind (getDeviceToken env) (\<lambda>deviceToken.
     if \<not> truthy deviceToken then io_throw (Error ''No device token available for checkout'')
     else
     io_bind (storage_local_remove env [SUBSCRIPTION_KEY]) (\<lambda>_.
     io_bind clearStatusCache (\<lambda>_.
     io_bind (encode_component env (to_str email)) (\<lambda>encodedEmail.
     io_bind (encode_component env (to_str deviceToken)) (\<lambda>encodedToken.
     io_return (checkout_base_url @ ''?checkout[email]='' @ encodedEmail
                  @ ''&checkout[custom][deviceToken]='' @ encodedToken))))))"

subsection \<open>Summaries used in the statements\<close>

text \<open>
  What one attempt of \<^verbatim>\<open>makeWorkerRequest\<close> makes of the outcome of its \<^verbatim>\<open>fetch\<close>: the
  parsed body of a 2xx response, and an error for everything else.
\<close>

definition attempt_outcome :: "fetch_outcome \<Rightarrow> js_error + jsval" where
  "attempt_outcome out =
     (case out of
        Rejects msg \<Rightarrow> Inl (Error msg)
      | Resolves r \<Rightarrow>
          if \<not> response_ok r
          then Inl (Error (''HTTP '' @ show_nat (status r) @ '': '' @ statusText r))
          else (case payload r of Json v \<Rightarrow> Inr v | NotJson msg \<Rightarrow> Inl (Error msg)))"

text \<open>The world after one more \<^verbatim>\<open>fetch\<close>, and after one more \<^verbatim>\<open>setTimeout\<close>.\<close>

definition fetched :: "request \<Rightarrow> fetch_outcome \<Rightarrow> world \<Rightarrow> world" where
  "fetched req out w = w\<lparr>fetches := Suc (fetches w), trace := trace w @ [Fetched req out]\<rparr>"

definition slept :: "nat \<Rightarrow> world \<Rightarrow> world" where
  "slept d w = w\<lparr>trace := trace w @ [Slept d]\<rparr>"

text \<open>The delays of a trace, in order.\<close>

fun delays :: "event list \<Rightarrow> nat list" where
  "delays [] = []"
| "delays (Slept d # es) = d # delays es"
| "delays (e # es) = delays es"

subsection \<open>Example environments and worlds\<close>

text \<open>
  A device that is off line: every \<^verbatim>\<open>fetch\<close> rejects. The clock advances by one
  millisecond per read, and storage never fails.
\<close>

definition offline_env :: env where
  "offline_env =
     \<lparr>fetch_oracle = (\<lambda>n req. Rejects ''Failed to fetch''),
      clock_oracle = (\<lambda>n. 1700000000000 + int n),
      storage_oracle = (\<lambda>n. None),
      parseDate = (\<lambda>s. if s = ''2023-11-17T00:00:00.000Z'' then Some 1700179200000 else None),
      toISOString = (\<lambda>t. if t = 1700179200000 then ''2023-11-17T00:00:00.000Z''
                          else ''1970-01-01T00:00:00.000Z''),
      toLocaleDateString = (\<lambda>t. case t of None \<Rightarrow> ''Invalid Date'' | Some _ \<Rightarrow> ''11/17/2023''),
      addDays = (\<lambda>t d. t + d * 86400000),
      encodeURIComponent = Inr\<rparr>"

text \<open>
  A server that is reached at the third attempt and then reports an active subscription.
\<close>

definition flaky_env :: env where
  "flaky_env = offline_env
     \<lparr>fetch_oracle := (\<lambda>n req.
        if n = 0 then Rejects ''Failed to fetch''
        else if n = 1 then Resolves (Response 503 ''Service Unavailable'' (NotJson ''Unexpected token''))
        else Resolves (Response 200 ''OK''
               (Json (JObj [(''active'', JBool True), (''plan'', JStr ''pro-monthly'')]))))\<rparr>"

text \<open>A fresh installation: a device token and nothing else.\<close>

definition fresh_world :: world where
  "fresh_world =
     \<lparr>local_storage = (\<lambda>k. JUndefined)(''deviceToken'' := JStr ''device_1''),
      sync_storage = (\<lambda>k. JUndefined),
      statusCache = JNull, cacheTimestamp = 0,
      fetches = 0, clock_reads = 0, storage_ops = 0, trace = []\<rparr>"

subsection \<open>Predicates on traces\<close>

text \<open>An event that one attempt of \<^verbatim>\<open>makeWorkerRequest\<close> for the request \<open>req\<close> can leave.\<close>

fun is_attempt :: "request \<Rightarrow> event \<Rightarrow> bool" where
  "is_attempt req (Fetched r out) = (r = req)"
| "is_attempt req (Slept d) = True"
| "is_attempt req e = False"

text \<open>
  \<open>confirms endpoint flag stored e\<close>: the event \<open>e\<close> is a 2xx JSON answer of the worker's
  \<open>endpoint\<close>, to a request made for the device token of the trial record \<open>stored\<close>, and its
  field \<open>flag\<close> is truthy.
\<close>

fun confirms :: "string \<Rightarrow> string \<Rightarrow> jsval \<Rightarrow> event \<Rightarrow> bool" where
  "confirms endpoint flag stored (Fetched req (Resolves r)) =
     (url req = WORKER_URL @ endpoint \<and>
      field (body req) ''deviceToken'' = field stored ''deviceToken'' \<and>
      response_ok r \<and>
      (case payload r of Json d \<Rightarrow> truthy (field d flag) | NotJson msg \<Rightarrow> False))"
| "confirms endpoint flag stored e = False"

text \<open>
  The server registered the trial (\<^verbatim>\<open>/trial/register\<close> answered \<^verbatim>\<open>success\<close>), or already
  holds it (\<^verbatim>\<open>/trial/status\<close> answered \<^verbatim>\<open>hasTrial\<close>).
\<close>

definition registered :: "jsval \<Rightarrow> event \<Rightarrow> bool" where
  "registered stored e = confirms ''/trial/register'' ''success'' stored e"

definition server_confirmed :: "jsval \<Rightarrow> event \<Rightarrow> bool" where
  "server_confirmed stored e =
     (confirms ''/trial/register'' ''success'' stored e \<or> confirms ''/trial/status'' ''hasTrial'' stored e)"

text \<open>
  Every write of the trial key in the events \<open>evs\<close> has a confirmation among the events
  that precede it (\<open>seen\<close> holds the events already passed).
\<close>

fun trial_writes_confirmed :: "(jsval \<Rightarrow> event \<Rightarrow> bool) \<Rightarrow> event list \<Rightarrow> event list \<Rightarrow> bool" where
  "trial_writes_confirmed conf seen [] = True"
| "trial_writes_confirmed conf seen (e # es) =
     ((case e of
         LocalSet items \<Rightarrow>
           (case map_of items TRIAL_KEY of
              None \<Rightarrow> True
            | Some stored \<Rightarrow> (\<exists>c \<in> set seen. conf stored c))
       | _ \<Rightarrow> True)
      \<and> trial_writes_confirmed conf (seen @ [e]) es)"

text \<open>
  An action is confined when, from every world, it only appends events to the trace and
  each trial write among them is confirmed by an earlier one of them.
\<close>

definition confined :: "(jsval \<Rightarrow> event \<Rightarrow> bool) \<Rightarrow> 'a io \<Rightarrow> bool" where
  "confined conf m = (\<forall>w. \<exists>evs. trace (snd (m w)) = trace w @ evs \<and> trial_writes_confirmed conf [] evs)"

definition ext :: "(jsval \<Rightarrow> event \<Rightarrow> bool) \<Rightarrow> world \<Rightarrow> world \<Rightarrow> bool" where
  "ext conf w w' = (\<exists>evs. trace w' = trace w @ evs \<and> trial_writes_confirmed conf [] evs)"

subsection \<open>Predicates on the status cache\<close>

text \<open>
  An action settles when every status it returns is truthy and is the one it left in the
  cache; \<open>settles_opt\<close> is the same for a block that may fall through with \<open>None\<close>.
\<close>

definition settles :: "jsval io \<Rightarrow> bool" where
  "settles m = (\<forall>w st w'. m w = (Inr st, w') \<longrightarrow> statusCache w' = st \<and> truthy st)"

definition settles_opt :: "jsval option io \<Rightarrow> bool" where
  "settles_opt m = (\<forall>w st w'. m w = (Inr (Some st), w') \<longrightarrow> statusCache w' = st \<and> truthy st)"

text \<open>
  \<open>blind\<close>: the action neither reads nor writes the cache fields. \<open>resets\<close>: whenever the
  action returns, it has overwritten both cache fields, and until then it is blind.
\<close>

definition with_cache :: "jsval \<Rightarrow> int \<Rightarrow> world \<Rightarrow> world" where
  "with_cache c t w = w\<lparr>statusCache := c, cacheTimestamp := t\<rparr>"

definition blind :: "'a io \<Rightarrow> bool" where
  "blind m = (\<forall>c t w. m (with_cache c t w) = (case m w of (r, w') \<Rightarrow> (r, with_cache c t w')))"

definition resets :: "'a io \<Rightarrow> bool" where
  "resets m = (\<forall>c t w. m (with_cache c t w) =
     (case m w of (Inr x, w') \<Rightarrow> (Inr x, w') | (Inl e, w') \<Rightarrow> (Inl e, with_cache c t w')))"

definition resets_opt :: "'a option io \<Rightarrow> bool" where
  "resets_opt m = (\<forall>c t w. m (with_cache c t w) =
     (case m w of
        (Inr (Some x), w') \<Rightarrow> (Inr (Some x), w')
      | (Inr None, w') \<Rightarrow> (Inr None, with_cache c t w')
      | (Inl e, w') \<Rightarrow> (Inl e, with_cache c t w')))"

subsection \<open>Predicates on a run that reaches the local records\<close>

text \<open>
  An event that asks the server for a new trial (\<^verbatim>\<open>/trial/check\<close> or
  \<^verbatim>\<open>/trial/register\<close>), and an event that writes or removes the local trial record.
\<close>

fun issues_trial :: "event \<Rightarrow> bool" where
  "issues_trial (Fetched req out) =
     (url req = WORKER_URL @ ''/trial/check'' \<or> url req = WORKER_URL @ ''/trial/register'')"
| "issues_trial e = False"

fun touches_trial :: "event \<Rightarrow> bool" where
  "touches_trial (LocalSet items) = (TRIAL_KEY \<in> fst ` set items)"
| "touches_trial (LocalRemove keys) = (TRIAL_KEY \<in> set keys)"
| "touches_trial e = False"

text \<open>
  \<open>drifted w w'\<close>: from \<open>w\<close> to \<open>w'\<close> only the counters of fetches and storage calls
  moved, harmless events were appended, and the local subscription record was at most
  replaced by one that is not active.
\<close>

definition harmless :: "event \<Rightarrow> bool" where
  "harmless e = (\<not> issues_trial e \<and> \<not> touches_trial e)"

definition drifted :: "world \<Rightarrow> world \<Rightarrow> bool" where
  "drifted w w' =
     (\<exists>sub n k evs.
        w' = w\<lparr>local_storage := (local_storage w)(SUBSCRIPTION_KEY := sub),
                fetches := n, storage_ops := k, trace := trace w @ evs\<rparr>
        \<and> (sub = local_storage w SUBSCRIPTION_KEY \<or> \<not> truthy (field sub ''active''))
        \<and> list_all harmless evs)"

subsection \<open>More example environments and worlds\<close>

text \<open>A server that knows no subscription and no trial for the device, and grants a new trial.\<close>

definition granting_env :: env where
  "granting_env = offline_env
     \<lparr>fetch_oracle := (\<lambda>n req.
        if url req = WORKER_URL @ ''/trial/check'' then
          Resolves (Response 200 ''OK'' (Json (JObj [(''allowed'', JBool True)])))
        else if url req = WORKER_URL @ ''/trial/register'' then
          Resolves (Response 200 ''OK'' (Json (JObj [(''success'', JBool True)])))
        else if url req = WORKER_URL @ ''/trial/status'' then
          Resolves (Response 200 ''OK'' (Json (JObj [(''hasTrial'', JBool False)])))
        else Resolves (Response 200 ''OK'' (Json (JObj [(''active'', JBool False)]))))\<rparr>"

text \<open>Off line, and the third \<^verbatim>\<open>chrome.storage\<close> call rejects.\<close>

definition storage_failing_env :: env where
  "storage_failing_env = offline_env
     \<lparr>storage_oracle := (\<lambda>n. if n = 2 then Some ''QUOTA_BYTES quota exceeded'' else None)\<rparr>"

text \<open>
  A server that reports an active subscription and knows no trial, while the second
  \<^verbatim>\<open>chrome.storage\<close> call of the execution rejects.
\<close>

definition quota_env :: env where
  "quota_env = offline_env
     \<lparr>fetch_oracle := (\<lambda>n req.
        if url req = WORKER_URL @ ''/trial/status'' then
          Resolves (Response 200 ''OK'' (Json (JObj [(''hasTrial'', JBool False)])))
        else Resolves (Response 200 ''OK''
               (Json (JObj [(''active'', JBool True), (''plan'', JStr ''pro-monthly'')])))),
      storage_oracle := (\<lambda>n. if n = 1 then Some ''QUOTA_BYTES quota exceeded'' else None)\<rparr>"

text \<open>A world with a stored trial record that ends at \<open>ends\<close>, and a world with a cached status.\<close>

definition stored_trial :: "jsval \<Rightarrow> jsval" where
  "stored_trial ends =
     JObj [(''deviceToken'', JStr ''device_1''), (''trialEndsAt'', ends),
           (''startedAt'', JStr ''2023-11-14T00:00:00.000Z''),
           (''isTrialing'', JBool True), (''serverVerified'', JBool True)]"

definition trial_world :: "jsval \<Rightarrow> world" where
  "trial_world ends = fresh_world
     \<lparr>local_storage := (local_storage fresh_world)(''trial'' := stored_trial ends)\<rparr>"

definition cached_world :: world where
  "cached_world = fresh_world
     \<lparr>statusCache := status_trial_expired (JStr ''2023-11-01T00:00:00.000Z''),
      cacheTimestamp := 1699999990000\<rparr>"

text \<open>Off line, with a clock that stands at the end of the stored trial.\<close>

definition boundary_env :: env where
  "boundary_env = offline_env\<lparr>clock_oracle := (\<lambda>n. 1700179200000)\<rparr>"

text \<open>A server that knows no subscription and no trial, and denies a new trial to the device.\<close>

definition denying_env :: env where
  "denying_env = offline_env
     \<lparr>fetch_oracle := (\<lambda>n req.
        if url req = WORKER_URL @ ''/trial/check'' then
          Resolves (Response 200 ''OK''
            (Json (JObj [(''allowed'', JBool False), (''reason'', JStr ''device_already_used''),
                         (''usedAt'', JStr ''2023-11-17T00:00:00.000Z'')])))
        else if url req = WORKER_URL @ ''/trial/status'' then
          Resolves (Response 200 ''OK'' (Json (JObj [(''hasTrial'', JBool False)])))
        else Resolves (Response 200 ''OK'' (Json (JObj [(''active'', JBool False)]))))\<rparr>"

section \<open>Properties\<close>

subsection \<open>The retry loop\<close>

lemma makeWorkerRequest_attempt_eq:
  "makeWorkerRequest_attempt env endpoint opts w =
     (attempt_outcome (fetch_oracle env (fetches w) (worker_request endpoint opts)),
      fetched (worker_request endpoint opts)
        (fetch_oracle env (fetches w) (worker_request endpoint opts)) w)"
  by (simp add: makeWorkerRequest_attempt_def attempt_outcome_def fetched_def fetch_def io_bind_def
      attempt_result_def response_json_def io_throw_def io_return_def Let_def
      split: fetch_outcome.splits response_body.splits)

lemma loop_done:
  "maxRetries < attempt \<Longrightarrow>
   makeWorkerRequest_loop env endpoint opts attempt lastError w = (Inl lastError, w)"
  by (subst makeWorkerRequest_loop.simps) simp

lemma loop_step:
  "attempt \<le> maxRetries \<Longrightarrow>
   makeWorkerRequest_loop env endpoint opts attempt lastError w =
    (let req = worker_request endpoint opts; out = fetch_oracle env (fetches w) req in
     case attempt_outcome out of
       Inr v \<Rightarrow> (Inr v, fetched req out w)
     | Inl error \<Rightarrow> makeWorkerRequest_loop env endpoint opts (Suc attempt) error
          (if attempt < maxRetries then slept (2 ^ (attempt - 1) * 1000) (fetched req out w)
           else fetched req out w))"
  by (subst makeWorkerRequest_loop.simps)
     (simp add: makeWorkerRequest_attempt_eq Let_def setTimeout_def slept_def split: sum.splits)

lemma makeWorkerRequest_eq:
  "makeWorkerRequest env endpoint opts w =
    (let req = worker_request endpoint opts;
         o1 = fetch_oracle env (fetches w) req;
         o2 = fetch_oracle env (Suc (fetches w)) req;
         o3 = fetch_oracle env (Suc (Suc (fetches w))) req;
         w1 = fetched req o1 w;
         w2 = fetched req o2 (slept 1000 w1);
         w3 = fetched req o3 (slept 2000 w2)
     in case attempt_outcome o1 of
          Inr v \<Rightarrow> (Inr v, w1)
        | Inl e1 \<Rightarrow>
            (case attempt_outcome o2 of
               Inr v \<Rightarrow> (Inr v, w2)
             | Inl e2 \<Rightarrow>
                 (case attempt_outcome o3 of
                    Inr v \<Rightarrow> (Inr v, w3)
                  | Inl e3 \<Rightarrow> (Inl e3, w3))))"
proof -
  have a1: "Suc 0 \<le> maxRetries" and a2: "Suc (Suc 0) \<le> maxRetries"
    and a3: "Suc (Suc (Suc 0)) \<le> maxRetries"
    and a4: "maxRetries < Suc (Suc (Suc (Suc 0)))"
    by (simp_all add: maxRetries_def)
  show ?thesis
    unfolding makeWorkerRequest_def One_nat_def
    by (simp add: loop_step [OF a1] loop_step [OF a2] loop_step [OF a3] loop_done [OF a4] Let_def
        maxRetries_def fetched_def slept_def split: sum.splits)
qed

lemma map_of_put_key_other: "k \<noteq> k' \<Longrightarrow> map_of (put_key k' v base) k = map_of base k"
  by (induction base) auto

lemma map_of_spread_other: "k \<notin> fst ` set over \<Longrightarrow> map_of (spread base over) k = map_of base k"
  by (induction over arbitrary: base) (auto simp: map_of_put_key_other)

lemma worker_request_content_type:
  "''Content-Type'' \<notin> fst ` set (opt_headers opts) \<Longrightarrow>
   map_of (headers (worker_request endpoint opts)) ''Content-Type'' = Some ''application/json''"
  by (simp add: worker_request_def map_of_spread_other)

lemma attempt_outcome_not_ok: "\<not> response_ok r \<Longrightarrow> isl (attempt_outcome (Resolves r))"
  by (simp add: attempt_outcome_def)

text \<open>
  The loop of \<^verbatim>\<open>makeWorkerRequest\<close>, unrolled. It makes at most three attempts, all with
  the same request; an attempt fails on a rejected \<^verbatim>\<open>fetch\<close> and on any response that is
  not 2xx (4xx and 5xx alike); the first attempt that succeeds ends the call with its
  parsed body, and after three failures the call throws the third error. The request
  carries the header \<^verbatim>\<open>Content-Type: application/json\<close> when the caller passes no
  \<^verbatim>\<open>Content-Type\<close> of its own, as no caller in the service does.
\<close>

lemma makeWorkerRequest_unrolled:
  "(let req = worker_request endpoint opts;
        o1 = fetch_oracle env (fetches w) req;
        o2 = fetch_oracle env (Suc (fetches w)) req;
        o3 = fetch_oracle env (Suc (Suc (fetches w))) req;
        w1 = fetched req o1 w;
        w2 = fetched req o2 (slept 1000 w1);
        w3 = fetched req o3 (slept 2000 w2)
    in makeWorkerRequest env endpoint opts w =
         (case attempt_outcome o1 of
            Inr v \<Rightarrow> (Inr v, w1)
          | Inl e1 \<Rightarrow>
              (case attempt_outcome o2 of
                 Inr v \<Rightarrow> (Inr v, w2)
               | Inl e2 \<Rightarrow>
                   (case attempt_outcome o3 of
                      Inr v \<Rightarrow> (Inr v, w3)
                    | Inl e3 \<Rightarrow> (Inl e3, w3))))
       \<and> (''Content-Type'' \<notin> fst ` set (opt_headers opts) \<longrightarrow>
            map_of (headers req) ''Content-Type'' = Some ''application/json''))
   \<and> (\<forall>msg. attempt_outcome (Rejects msg) = Inl (Error msg))
   \<and> (\<forall>r. \<not> response_ok r \<longrightarrow> isl (attempt_outcome (Resolves r)))"
  using makeWorkerRequest_eq [of env endpoint opts w]
  by (simp add: Let_def worker_request_content_type attempt_outcome_not_ok)
     (simp add: attempt_outcome_def)

text \<open>
  An example: the third attempt succeeds, after a rejected \<^verbatim>\<open>fetch\<close> and a 503; three
  fetches, the JSON content type; a 404 and a 503 both fail an attempt.
\<close>

lemma makeWorkerRequest_unrolled_example:
  "fst (makeWorkerRequest flaky_env ''/check?token=device_1'' no_options fresh_world)
     = Inr (JObj [(''active'', JBool True), (''plan'', JStr ''pro-monthly'')])
   \<and> fetches (snd (makeWorkerRequest flaky_env ''/check?token=device_1'' no_options fresh_world)) = 3
   \<and> delays (trace (snd (makeWorkerRequest flaky_env ''/check?token=device_1'' no_options fresh_world)))
       = [1000, 2000]
   \<and> map_of (headers (worker_request ''/check?token=device_1'' no_options)) ''Content-Type''
       = Some ''application/json''
   \<and> isl (attempt_outcome (Resolves (Response 404 ''Not Found'' (Json JNull))))
   \<and> isl (attempt_outcome (Resolves (Response 503 ''Service Unavailable'' (Json JNull))))"
  using makeWorkerRequest_unrolled [of "''/check?token=device_1''" no_options flaky_env fresh_world]
  by (simp add: Let_def flaky_env_def offline_env_def fresh_world_def attempt_outcome_def
      response_ok_def fetched_def slept_def no_options_def)


subsection \<open>The checkout URL\<close>

text \<open>
  Claim C10. \<^verbatim>\<open>generateCheckoutUrl(email, plan)\<close> does not depend on \<^verbatim>\<open>plan\<close>: for every
  environment, world and email, any two plans give the same result (the same URL or the
  same exception) and the same effects.
\<close>

theorem C10_checkout_url_ignores_plan:
  "generateCheckoutUrl env email plan1 w = generateCheckoutUrl env email plan2 w"
  by (simp add: generateCheckoutUrl_def)

lemmas io_defs = io_bind_def io_catch_def io_return_def io_throw_def io_gets_def

subsection \<open>Confirmed trial writes\<close>

lemma twc_append:
  "trial_writes_confirmed conf seen (a @ b) =
     (trial_writes_confirmed conf seen a \<and> trial_writes_confirmed conf (seen @ a) b)"
  by (induction a arbitrary: seen) simp_all

lemma twc_attempts:
  "list_all (is_attempt req) evs \<Longrightarrow> trial_writes_confirmed conf seen evs"
proof (induction evs arbitrary: seen)
  case Nil
  then show ?case by simp
next
  case (Cons e es)
  then show ?case by (cases e) simp_all
qed

lemma attempt_outcome_Inr:
  "attempt_outcome out = Inr d \<Longrightarrow> \<exists>r. out = Resolves r \<and> response_ok r \<and> payload r = Json d"
  by (cases out) (auto simp: attempt_outcome_def split: if_splits response_body.splits)

lemma twc_mono_seen:
  "trial_writes_confirmed conf seen evs \<Longrightarrow> set seen \<subseteq> set seen' \<Longrightarrow>
   trial_writes_confirmed conf seen' evs"
proof (induction evs arbitrary: seen seen')
  case Nil
  then show ?case by simp
next
  case (Cons e es)
  from Cons.prems(1) have tail: "trial_writes_confirmed conf (seen @ [e]) es"
    by simp
  have sub: "set (seen @ [e]) \<subseteq> set (seen' @ [e])"
    using Cons.prems(2) by auto
  have IH: "trial_writes_confirmed conf (seen' @ [e]) es"
    using tail sub by (rule Cons.IH)
  show ?case
  proof (cases e)
    case (LocalSet items)
    show ?thesis
    proof (cases "map_of items TRIAL_KEY")
      case None
      with LocalSet IH show ?thesis by simp
    next
      case (Some stored)
      with LocalSet Cons.prems(1) obtain c where "c \<in> set seen" "conf stored c"
        by auto
      with Cons.prems(2) have "\<exists>c \<in> set seen'. conf stored c"
        by blast
      with LocalSet Some IH show ?thesis by simp
    qed
  qed (use IH in simp_all)
qed

lemma ext_refl: "ext conf w w"
  by (simp add: ext_def)

lemma ext_trans: "ext conf w w1 \<Longrightarrow> ext conf w1 w2 \<Longrightarrow> ext conf w w2"
  unfolding ext_def
proof (elim exE conjE)
  fix a b
  assume a: "trace w1 = trace w @ a" "trial_writes_confirmed conf [] a"
    and b: "trace w2 = trace w1 @ b" "trial_writes_confirmed conf [] b"
  have "trial_writes_confirmed conf ([] @ a) b"
    using b(2) by (rule twc_mono_seen) simp
  with a b have "trace w2 = trace w @ (a @ b) \<and> trial_writes_confirmed conf [] (a @ b)"
    by (simp add: twc_append)
  then show "\<exists>evs. trace w2 = trace w @ evs \<and> trial_writes_confirmed conf [] evs"
    by (rule exI)
qed

lemma makeWorkerRequest_cases:
  "(\<exists>d r m n evs.
      makeWorkerRequest env endpoint opts w =
        (Inr d, w\<lparr>fetches := n,
                   trace := (trace w @ evs) @ [Fetched (worker_request endpoint opts) (Resolves r)]\<rparr>)
      \<and> list_all (is_attempt (worker_request endpoint opts)) evs
      \<and> response_ok r \<and> payload r = Json d
      \<and> fetch_oracle env m (worker_request endpoint opts) = Resolves r)
   \<or> (\<exists>e n evs.
      makeWorkerRequest env endpoint opts w = (Inl e, w\<lparr>fetches := n, trace := trace w @ evs\<rparr>)
      \<and> list_all (is_attempt (worker_request endpoint opts)) evs)"
proof -
  let ?req = "worker_request endpoint opts"
  let ?o1 = "fetch_oracle env (fetches w) ?req"
  let ?o2 = "fetch_oracle env (Suc (fetches w)) ?req"
  let ?o3 = "fetch_oracle env (Suc (Suc (fetches w))) ?req"
  let ?ok = "\<lambda>d r m n evs.
      makeWorkerRequest env endpoint opts w =
        (Inr d, w\<lparr>fetches := n, trace := (trace w @ evs) @ [Fetched ?req (Resolves r)]\<rparr>)
      \<and> list_all (is_attempt ?req) evs
      \<and> response_ok r \<and> payload r = Json d
      \<and> fetch_oracle env m ?req = Resolves r"
  let ?ko = "\<lambda>e n evs.
      makeWorkerRequest env endpoint opts w = (Inl e, w\<lparr>fetches := n, trace := trace w @ evs\<rparr>)
      \<and> list_all (is_attempt ?req) evs"
  note eq = makeWorkerRequest_eq [of env endpoint opts w, unfolded Let_def fetched_def slept_def]
  show ?thesis
  proof (cases "attempt_outcome ?o1")
    case (Inr d)
    then obtain r where r: "?o1 = Resolves r" "response_ok r" "payload r = Json d"
      by (auto dest: attempt_outcome_Inr)
    have "?ok d r (fetches w) (Suc (fetches w)) []"
      using Inr r by (simp add: eq)
    then show ?thesis by blast
  next
    case e1: (Inl e1)
    show ?thesis
    proof (cases "attempt_outcome ?o2")
      case (Inr d)
      then obtain r where r: "?o2 = Resolves r" "response_ok r" "payload r = Json d"
        by (auto dest: attempt_outcome_Inr)
      have "?ok d r (Suc (fetches w)) (Suc (Suc (fetches w))) [Fetched ?req ?o1, Slept 1000]"
        using e1 Inr r by (simp add: eq)
      then show ?thesis by blast
    next
      case e2: (Inl e2)
      show ?thesis
      proof (cases "attempt_outcome ?o3")
        case (Inr d)
        then obtain r where r: "?o3 = Resolves r" "response_ok r" "payload r = Json d"
          by (auto dest: attempt_outcome_Inr)
        have "?ok d r (Suc (Suc (fetches w))) (Suc (Suc (Suc (fetches w))))
                [Fetched ?req ?o1, Slept 1000, Fetched ?req ?o2, Slept 2000]"
          using e1 e2 Inr r by (simp add: eq)
        then show ?thesis by blast
      next
        case e3: (Inl e3)
        have "?ko e3 (Suc (Suc (Suc (fetches w))))
                [Fetched ?req ?o1, Slept 1000, Fetched ?req ?o2, Slept 2000, Fetched ?req ?o3]"
          using e1 e2 e3 by (simp add: eq)
        then show ?thesis by blast
      qed
    qed
  qed
qed

lemma confined_ext: "confined conf m = (\<forall>w. ext conf w (snd (m w)))"
  by (simp add: confined_def ext_def)

lemma confined_return: "confined conf (io_return x)"
  and confined_throw: "confined conf (io_throw e)"
  and confined_gets: "confined conf (io_gets g)"
  by (simp_all add: confined_def io_defs)

lemma confined_bind:
  assumes "confined conf m" and "\<And>x. confined conf (f x)"
  shows "confined conf (io_bind m f)"
  unfolding confined_ext
proof
  fix w
  obtain r w1 where m: "m w = (r, w1)" by (cases "m w")
  have e1: "ext conf w w1" using assms(1) m by (auto simp: confined_ext dest: spec [of _ w])
  show "ext conf w (snd (io_bind m f w))"
  proof (cases r)
    case (Inl e)
    with m e1 show ?thesis by (simp add: io_bind_def)
  next
    case (Inr x)
    have "ext conf w1 (snd (f x w1))" using assms(2) by (simp add: confined_ext)
    with e1 have "ext conf w (snd (f x w1))" by (rule ext_trans)
    with m Inr show ?thesis by (simp add: io_bind_def)
  qed
qed

lemma confined_catch:
  assumes "confined conf m" and "\<And>e. confined conf (h e)"
  shows "confined conf (io_catch m h)"
  unfolding confined_ext
proof
  fix w
  obtain r w1 where m: "m w = (r, w1)" by (cases "m w")
  have e1: "ext conf w w1" using assms(1) m by (auto simp: confined_ext dest: spec [of _ w])
  show "ext conf w (snd (io_catch m h w))"
  proof (cases r)
    case (Inr x)
    with m e1 show ?thesis by (simp add: io_catch_def)
  next
    case (Inl e)
    have "ext conf w1 (snd (h e w1))" using assms(2) by (simp add: confined_ext)
    with e1 have "ext conf w (snd (h e w1))" by (rule ext_trans)
    with m Inl show ?thesis by (simp add: io_catch_def)
  qed
qed

lemma confined_if:
  "(c \<Longrightarrow> confined conf a) \<Longrightarrow> (\<not> c \<Longrightarrow> confined conf b) \<Longrightarrow> confined conf (if c then a else b)"
  by simp

lemma confined_case_option:
  "confined conf a \<Longrightarrow> (\<And>x. confined conf (b x)) \<Longrightarrow> confined conf (case opt of None \<Rightarrow> a | Some x \<Rightarrow> b x)"
  by (cases opt) simp_all

lemma confined_case_prod:
  "(\<And>x y. confined conf (f x y)) \<Longrightarrow> confined conf (case p of (x, y) \<Rightarrow> f x y)"
  by (cases p) simp

lemma confined_dateNow: "confined conf (dateNow env)"
  and confined_cache_and_return: "confined conf (cache_and_return env st)"
  and confined_fetch: "confined conf (fetch env req)"
  and confined_setTimeout: "confined conf (setTimeout d)"
  and confined_local_get: "confined conf (storage_local_get env keys)"
  and confined_sync_set: "confined conf (storage_sync_set env items)"
  and confined_response_json: "confined conf (response_json r)"
  and confined_get_prop: "confined conf (get_prop v k)"
  and confined_error_message: "confined conf (error_message e)"
  by (simp_all add: confined_def dateNow_def cache_and_return_def fetch_def
      setTimeout_def storage_local_get_def storage_sync_set_def
      response_json_def get_prop_def error_message_def io_defs Let_def
      split: option.splits fetch_outcome.splits response_body.splits js_error.splits)

lemma confined_local_set:
  "map_of items TRIAL_KEY = None \<Longrightarrow> confined conf (storage_local_set env items)"
  by (simp add: confined_def storage_local_set_def Let_def split: option.splits)

lemma ext_attempts:
  "trace w' = trace w @ evs \<Longrightarrow> list_all (is_attempt req) evs \<Longrightarrow> ext conf w w'"
  unfolding ext_def by (blast intro: twc_attempts)

lemma confined_makeWorkerRequest: "confined conf (makeWorkerRequest env endpoint opts)"
  unfolding confined_ext
proof
  fix w
  from makeWorkerRequest_cases [of env endpoint opts w]
  show "ext conf w (snd (makeWorkerRequest env endpoint opts w))"
  proof (elim disjE exE conjE)
    fix d r m n evs
    assume eq: "makeWorkerRequest env endpoint opts w =
        (Inr d, w\<lparr>fetches := n, trace := (trace w @ evs) @ [Fetched (worker_request endpoint opts) (Resolves r)]\<rparr>)"
      and evs: "list_all (is_attempt (worker_request endpoint opts)) evs"
    show ?thesis
      by (rule ext_attempts [where evs = "evs @ [Fetched (worker_request endpoint opts) (Resolves r)]"
            and req = "worker_request endpoint opts"])
         (use eq evs in simp_all)
  next
    fix e n evs
    assume eq: "makeWorkerRequest env endpoint opts w = (Inl e, w\<lparr>fetches := n, trace := trace w @ evs\<rparr>)"
      and evs: "list_all (is_attempt (worker_request endpoint opts)) evs"
    show ?thesis
      by (rule ext_attempts [where evs = evs and req = "worker_request endpoint opts"])
         (use eq evs in simp_all)
  qed
qed

lemmas confined_intros = confined_return confined_throw confined_gets confined_bind confined_catch
  confined_if confined_case_option confined_case_prod confined_dateNow confined_cache_and_return
  confined_fetch confined_setTimeout confined_local_get
  confined_sync_set confined_response_json confined_get_prop
  confined_error_message confined_makeWorkerRequest

lemma confined_getDeviceToken: "confined conf (getDeviceToken env)"
  unfolding getDeviceToken_def by (intro confined_intros)

lemma confined_checkServerStatus: "confined conf (checkServerStatus env)"
  unfolding checkServerStatus_def
  by (intro confined_intros confined_getDeviceToken confined_local_set)
     (simp add: SUBSCRIPTION_KEY_def TRIAL_KEY_def)

lemma confined_getLocalData: "confined conf (getLocalData env)"
  unfolding getLocalData_def by (intro confined_intros)

lemma confined_checkLocalTrial: "confined conf (checkLocalTrial env t)"
  unfolding checkLocalTrial_def Let_def by (intro confined_intros)

lemma confined_trialPrecheck: "confined conf (trialPrecheck env tok)"
  unfolding trialPrecheck_def by (intro confined_intros)

lemma confined_mono:
  assumes "confined conf m" and "\<And>v e. conf v e \<Longrightarrow> conf' v e"
  shows "confined conf' m"
proof -
  have mono: "trial_writes_confirmed conf seen evs \<Longrightarrow> trial_writes_confirmed conf' seen evs" for seen evs
  proof (induction evs arbitrary: seen)
    case Nil
    then show ?case by simp
  next
    case (Cons e es)
    then show ?case
      by (cases e) (auto split: option.splits intro: assms(2))
  qed
  from assms(1) show ?thesis
    unfolding confined_def by (blast intro: mono)
qed

lemma truthy_field_imp_truthy: "truthy (field v k) \<Longrightarrow> truthy v"
  by (cases v) simp_all

lemma getDeviceToken_eq:
  "getDeviceToken env w =
     (Inr (case storage_oracle env (storage_ops w) of
             None \<Rightarrow> local_storage w DEVICE_TOKEN_KEY
           | Some msg \<Rightarrow> JNull),
      w\<lparr>storage_ops := Suc (storage_ops w)\<rparr>)"
  by (simp add: getDeviceToken_def storage_local_get_def io_defs Let_def split: option.splits)

lemma confined_startTrial: "confined registered (startTrial env)"
  unfolding confined_def
  by (simp add: startTrial_def getDeviceToken_eq fetch_def response_json_def get_prop_def dateNow_def
       storage_local_set_def storage_sync_set_def io_defs Let_def registered_def trial_request_def
       TRIAL_KEY_def TRIAL_USED_FLAG_def
       split: option.splits fetch_outcome.splits response_body.splits)

lemma confined_restoreServerTrial: "confined server_confirmed (restoreServerTrial env deviceToken)"
  unfolding confined_def
proof
  fix w
  let ?opts = "\<lparr>opt_method = Some ''POST'', opt_headers = [],
                 opt_body = JObj [(''deviceToken'', deviceToken)]\<rparr>"
  let ?req = "worker_request ''/trial/status'' ?opts"
  from makeWorkerRequest_cases [of env "''/trial/status''" ?opts w]
  show "\<exists>evs. trace (snd (restoreServerTrial env deviceToken w)) = trace w @ evs
              \<and> trial_writes_confirmed server_confirmed [] evs"
  proof (elim disjE exE conjE)
    fix d r m n evs
    assume eq: "makeWorkerRequest env ''/trial/status'' ?opts w =
        (Inr d, w\<lparr>fetches := n, trace := (trace w @ evs) @ [Fetched ?req (Resolves r)]\<rparr>)"
      and evs: "list_all (is_attempt ?req) evs"
      and r: "response_ok r" "payload r = Json d"
    have head: "trial_writes_confirmed server_confirmed [] evs"
      using evs by (rule twc_attempts)
    show ?thesis
      using eq r head
      by (simp add: restoreServerTrial_def io_defs get_prop_def storage_local_set_def dateNow_def
           cache_and_return_def Let_def twc_append server_confirmed_def worker_request_def
           TRIAL_KEY_def
           split: option.splits)
  next
    fix e n evs
    assume eq: "makeWorkerRequest env ''/trial/status'' ?opts w =
        (Inl e, w\<lparr>fetches := n, trace := trace w @ evs\<rparr>)"
      and evs: "list_all (is_attempt ?req) evs"
    have "trial_writes_confirmed server_confirmed [] evs"
      using evs by (rule twc_attempts)
    with eq show ?thesis
      by (simp add: restoreServerTrial_def io_defs)
  qed
qed

lemma registered_imp_server_confirmed: "registered v e \<Longrightarrow> server_confirmed v e"
  by (simp add: registered_def server_confirmed_def)

lemma confined_tryStartTrial: "confined server_confirmed (tryStartTrial env)"
  unfolding tryStartTrial_def Let_def
  by (intro confined_intros confined_mono [OF confined_startTrial] registered_imp_server_confirmed)

lemma confined_checkServerTrial: "confined server_confirmed (checkServerTrial env deviceToken)"
  unfolding checkServerTrial_def
  by (intro confined_intros confined_restoreServerTrial)

lemma confined_localFallback: "confined server_confirmed (localFallback env deviceToken localData)"
  unfolding localFallback_def
  by (intro confined_intros confined_checkLocalTrial confined_trialPrecheck confined_tryStartTrial)

lemma confined_refreshStatus: "confined server_confirmed (refreshStatus env)"
  unfolding refreshStatus_def
  by (intro confined_intros confined_checkServerStatus confined_getDeviceToken
        confined_checkServerTrial confined_getLocalData confined_localFallback)

lemma confined_getUnifiedSubscriptionStatus:
  "confined server_confirmed (getUnifiedSubscriptionStatus env forceRefresh)"
  unfolding getUnifiedSubscriptionStatus_def getUnifiedSubscriptionStatus_try_def
  by (intro confined_intros confined_refreshStatus)

subsection \<open>Every returned status is cached\<close>

lemma io_bind_Inr:
  assumes "io_bind m f w = (Inr y, w')"
  obtains x w1 where "m w = (Inr x, w1)" "f x w1 = (Inr y, w')"
proof -
  obtain r w1 where m: "m w = (r, w1)" by (cases "m w")
  show thesis
  proof (cases r)
    case (Inl e)
    with assms m show ?thesis by (simp add: io_bind_def)
  next
    case (Inr x)
    with assms m have "f x w1 = (Inr y, w')" by (simp add: io_bind_def)
    with m Inr show ?thesis by (intro that [of x w1]) simp_all
  qed
qed

lemma io_catch_Inr:
  assumes "io_catch m h w = (Inr y, w')"
  obtains (body) "m w = (Inr y, w')"
  | (handler) e w1 where "m w = (Inl e, w1)" "h e w1 = (Inr y, w')"
proof -
  obtain r w1 where m: "m w = (r, w1)" by (cases "m w")
  show thesis
  proof (cases r)
    case (Inr x)
    with assms m show ?thesis by (intro body) (simp add: io_catch_def)
  next
    case (Inl e)
    with assms m have "h e w1 = (Inr y, w')" by (simp add: io_catch_def)
    with m Inl show ?thesis by (intro handler [of e w1]) simp_all
  qed
qed

lemma settles_throw: "settles (io_throw e)"
  by (simp add: settles_def io_throw_def)

lemma settles_cache_and_return: "truthy st \<Longrightarrow> settles (cache_and_return env st)"
  by (simp add: settles_def cache_and_return_def)

lemma settles_bind:
  assumes "\<And>x. settles (f x)"
  shows "settles (io_bind m f)"
  unfolding settles_def
proof (intro allI impI)
  fix w st w'
  assume "io_bind m f w = (Inr st, w')"
  then obtain x w1 where "f x w1 = (Inr st, w')" by (rule io_bind_Inr)
  with assms [of x] show "statusCache w' = st \<and> truthy st"
    unfolding settles_def by blast
qed

lemma settles_catch:
  assumes "settles m" and "\<And>e. settles (h e)"
  shows "settles (io_catch m h)"
  unfolding settles_def
proof (intro allI impI)
  fix w st w'
  assume "io_catch m h w = (Inr st, w')"
  then show "statusCache w' = st \<and> truthy st"
  proof (cases rule: io_catch_Inr)
    case body
    with assms(1) show ?thesis unfolding settles_def by blast
  next
    case (handler e w1)
    with assms(2) [of e] show ?thesis unfolding settles_def by blast
  qed
qed

lemma settles_if:
  "(c \<Longrightarrow> settles a) \<Longrightarrow> (\<not> c \<Longrightarrow> settles b) \<Longrightarrow> settles (if c then a else b)"
  by simp

lemma settles_case_prod: "(\<And>x y. settles (f x y)) \<Longrightarrow> settles (case p of (x, y) \<Rightarrow> f x y)"
  by (cases p) simp

lemma settles_after_opt:
  assumes "settles_opt m" and "settles k"
  shows "settles (io_bind m (\<lambda>r. case r of Some result \<Rightarrow> io_return result | None \<Rightarrow> k))"
  unfolding settles_def
proof (intro allI impI)
  fix w st w'
  assume "io_bind m (\<lambda>r. case r of Some result \<Rightarrow> io_return result | None \<Rightarrow> k) w = (Inr st, w')"
  then obtain x w1 where m: "m w = (Inr x, w1)"
    and k: "(case x of Some result \<Rightarrow> io_return result | None \<Rightarrow> k) w1 = (Inr st, w')"
    by (rule io_bind_Inr)
  show "statusCache w' = st \<and> truthy st"
  proof (cases x)
    case None
    with k assms(2) show ?thesis unfolding settles_def by simp
  next
    case (Some result)
    with k have "result = st" "w1 = w'" by (simp_all add: io_return_def)
    with m Some assms(1) show ?thesis unfolding settles_opt_def by blast
  qed
qed

lemma settles_opt_return_None: "settles_opt (io_return None)"
  by (simp add: settles_opt_def io_return_def)

lemma settles_opt_throw: "settles_opt (io_throw e)"
  by (simp add: settles_opt_def io_throw_def)

lemma settles_opt_cached:
  "truthy st \<Longrightarrow> settles_opt (io_bind (cache_and_return env st) (\<lambda>result. io_return (Some result)))"
  by (simp add: settles_opt_def cache_and_return_def io_bind_def io_return_def)

lemma settles_opt_bind:
  assumes "\<And>x. settles_opt (f x)"
  shows "settles_opt (io_bind m f)"
  unfolding settles_opt_def
proof (intro allI impI)
  fix w st w'
  assume "io_bind m f w = (Inr (Some st), w')"
  then obtain x w1 where "f x w1 = (Inr (Some st), w')" by (rule io_bind_Inr)
  with assms [of x] show "statusCache w' = st \<and> truthy st"
    unfolding settles_opt_def by blast
qed

lemma settles_opt_catch:
  assumes "settles_opt m" and "\<And>e. settles_opt (h e)"
  shows "settles_opt (io_catch m h)"
  unfolding settles_opt_def
proof (intro allI impI)
  fix w st w'
  assume "io_catch m h w = (Inr (Some st), w')"
  then show "statusCache w' = st \<and> truthy st"
  proof (cases rule: io_catch_Inr)
    case body
    with assms(1) show ?thesis unfolding settles_opt_def by blast
  next
    case (handler e w1)
    with assms(2) [of e] show ?thesis unfolding settles_opt_def by blast
  qed
qed

lemma settles_opt_if:
  "(c \<Longrightarrow> settles_opt a) \<Longrightarrow> (\<not> c \<Longrightarrow> settles_opt b) \<Longrightarrow> settles_opt (if c then a else b)"
  by simp

lemmas settles_intros = settles_throw settles_bind settles_catch settles_if settles_case_prod
  settles_opt_return_None settles_opt_throw settles_opt_bind settles_opt_catch settles_opt_if

lemma truthy_status [simp]:
  "truthy (status_trial_active x)" "truthy (status_trial_expired x)" "truthy (status_corrupted_date x)"
  "truthy status_date_parsing_error" "truthy (status_trial_denied s)" "truthy (status_unverified s)"
  "truthy status_check_failed"
  by (simp_all add: status_trial_active_def status_trial_expired_def status_corrupted_date_def
      status_date_parsing_error_def status_trial_denied_def status_unverified_def
      status_check_failed_def)

lemma settles_checkLocalTrial: "settles (checkLocalTrial env t)"
  unfolding checkLocalTrial_def Let_def
  by (intro settles_intros settles_cache_and_return) simp_all

lemma settles_opt_restoreServerTrial: "settles_opt (restoreServerTrial env tok)"
  unfolding restoreServerTrial_def Let_def
  by (intro settles_intros settles_opt_cached) simp_all

lemma settles_opt_checkServerTrial: "settles_opt (checkServerTrial env tok)"
  unfolding checkServerTrial_def
  by (intro settles_intros settles_opt_restoreServerTrial)

lemma settles_opt_trialPrecheck: "settles_opt (trialPrecheck env tok)"
  unfolding trialPrecheck_def
  by (intro settles_intros settles_opt_cached) simp_all

lemma settles_tryStartTrial: "settles (tryStartTrial env)"
  unfolding tryStartTrial_def Let_def
  by (intro settles_intros settles_cache_and_return) simp_all

lemma settles_localFallback: "settles (localFallback env tok localData)"
  unfolding localFallback_def
  by (intro settles_intros settles_cache_and_return settles_checkLocalTrial
        settles_after_opt settles_opt_trialPrecheck settles_tryStartTrial) simp

lemma try_fresh:
  "cache_is_fresh forceRefresh (clock_oracle env (clock_reads w)) w \<Longrightarrow>
   getUnifiedSubscriptionStatus_try env forceRefresh w =
     (Inr (statusCache w), w\<lparr>clock_reads := Suc (clock_reads w)\<rparr>)"
  by (simp add: getUnifiedSubscriptionStatus_try_def io_bind_def dateNow_def io_gets_def
      cache_is_fresh_def)

lemma try_stale:
  "\<not> cache_is_fresh forceRefresh (clock_oracle env (clock_reads w)) w \<Longrightarrow>
   getUnifiedSubscriptionStatus_try env forceRefresh w =
     refreshStatus env (w\<lparr>clock_reads := Suc (clock_reads w)\<rparr>)"
  by (auto simp add: getUnifiedSubscriptionStatus_try_def io_bind_def dateNow_def io_gets_def
      cache_is_fresh_def)

lemma settles_refreshStatus: "settles (refreshStatus env)"
  unfolding refreshStatus_def
  by (intro settles_intros settles_cache_and_return settles_after_opt
        settles_opt_checkServerTrial settles_localFallback) simp

lemma settles_try: "settles (getUnifiedSubscriptionStatus_try env forceRefresh)"
  unfolding settles_def
proof (intro allI impI)
  fix w st w'
  assume run: "getUnifiedSubscriptionStatus_try env forceRefresh w = (Inr st, w')"
  show "statusCache w' = st \<and> truthy st"
  proof (cases "cache_is_fresh forceRefresh (clock_oracle env (clock_reads w)) w")
    case True
    from run have "st = statusCache w" "w' = w\<lparr>clock_reads := Suc (clock_reads w)\<rparr>"
      by (simp_all add: try_fresh [OF True])
    with True show ?thesis by (simp add: cache_is_fresh_def)
  next
    case False
    from run have "refreshStatus env (w\<lparr>clock_reads := Suc (clock_reads w)\<rparr>) = (Inr st, w')"
      by (simp add: try_stale [OF False])
    with settles_refreshStatus [of env] show ?thesis
      unfolding settles_def by blast
  qed
qed

lemma settles_getUnifiedSubscriptionStatus: "settles (getUnifiedSubscriptionStatus env forceRefresh)"
  unfolding getUnifiedSubscriptionStatus_def
  by (intro settles_intros settles_try settles_cache_and_return) simp

lemma getUnifiedSubscriptionStatus_returns:
  "\<exists>st w'. getUnifiedSubscriptionStatus env forceRefresh w = (Inr st, w')"
proof (cases "getUnifiedSubscriptionStatus_try env forceRefresh w")
  case (Pair r w1)
  then show ?thesis
    by (cases r) (simp_all add: getUnifiedSubscriptionStatus_def io_catch_def cache_and_return_def)
qed

subsection \<open>A forced refresh does not depend on the cache\<close>

lemma with_cache_sel [simp]:
  "local_storage (with_cache c t w) = local_storage w"
  "sync_storage (with_cache c t w) = sync_storage w"
  "statusCache (with_cache c t w) = c"
  "cacheTimestamp (with_cache c t w) = t"
  "fetches (with_cache c t w) = fetches w"
  "clock_reads (with_cache c t w) = clock_reads w"
  "storage_ops (with_cache c t w) = storage_ops w"
  "trace (with_cache c t w) = trace w"
  by (simp_all add: with_cache_def)

lemma blindD: "blind m \<Longrightarrow> m w = (r, w') \<Longrightarrow> m (with_cache c t w) = (r, with_cache c t w')"
  by (simp add: blind_def)

lemma blind_return: "blind (io_return x)"
  and blind_throw: "blind (io_throw e)"
  by (simp_all add: blind_def io_return_def io_throw_def)

lemma blind_bind:
  assumes "blind m" and "\<And>x. blind (f x)"
  shows "blind (io_bind m f)"
  unfolding blind_def
proof (intro allI)
  fix c t w
  obtain r w1 where m: "m w = (r, w1)" by (cases "m w")
  from blindD [OF assms(1) m] have mc: "m (with_cache c t w) = (r, with_cache c t w1)" .
  show "io_bind m f (with_cache c t w) = (case io_bind m f w of (r, w') \<Rightarrow> (r, with_cache c t w'))"
  proof (cases r)
    case (Inl e)
    with m mc show ?thesis by (simp add: io_bind_def)
  next
    case (Inr x)
    obtain r2 w2 where f: "f x w1 = (r2, w2)" by (cases "f x w1")
    from blindD [OF assms(2) f] have "f x (with_cache c t w1) = (r2, with_cache c t w2)" .
    with m mc Inr f show ?thesis by (simp add: io_bind_def)
  qed
qed

lemma blind_catch:
  assumes "blind m" and "\<And>e. blind (h e)"
  shows "blind (io_catch m h)"
  unfolding blind_def
proof (intro allI)
  fix c t w
  obtain r w1 where m: "m w = (r, w1)" by (cases "m w")
  from blindD [OF assms(1) m] have mc: "m (with_cache c t w) = (r, with_cache c t w1)" .
  show "io_catch m h (with_cache c t w) = (case io_catch m h w of (r, w') \<Rightarrow> (r, with_cache c t w'))"
  proof (cases r)
    case (Inr x)
    with m mc show ?thesis by (simp add: io_catch_def)
  next
    case (Inl e)
    obtain r2 w2 where h: "h e w1 = (r2, w2)" by (cases "h e w1")
    from blindD [OF assms(2) h] have "h e (with_cache c t w1) = (r2, with_cache c t w2)" .
    with m mc Inl h show ?thesis by (simp add: io_catch_def)
  qed
qed

lemma blind_if: "(c \<Longrightarrow> blind a) \<Longrightarrow> (\<not> c \<Longrightarrow> blind b) \<Longrightarrow> blind (if c then a else b)"
  by simp

lemma blind_dateNow: "blind (dateNow env)"
  and blind_fetch: "blind (fetch env req)"
  and blind_setTimeout: "blind (setTimeout d)"
  and blind_local_get: "blind (storage_local_get env keys)"
  and blind_local_set: "blind (storage_local_set env items)"
  and blind_sync_set: "blind (storage_sync_set env items)"
  and blind_response_json: "blind (response_json r)"
  and blind_get_prop: "blind (get_prop v k)"
  and blind_error_message: "blind (error_message e)"
  by (simp_all add: blind_def with_cache_def dateNow_def fetch_def setTimeout_def
      storage_local_get_def storage_local_set_def storage_sync_set_def response_json_def
      get_prop_def error_message_def io_return_def io_throw_def Let_def
      split: option.splits fetch_outcome.splits response_body.splits js_error.splits
      cong: if_cong)

lemma blind_makeWorkerRequest: "blind (makeWorkerRequest env endpoint opts)"
  by (simp add: blind_def with_cache_def makeWorkerRequest_eq Let_def fetched_def slept_def
      split: sum.splits)

lemmas blind_intros = blind_return blind_throw blind_bind blind_catch blind_if blind_dateNow
  blind_fetch blind_setTimeout blind_local_get blind_local_set blind_sync_set blind_response_json
  blind_get_prop blind_error_message blind_makeWorkerRequest

lemma blind_getDeviceToken: "blind (getDeviceToken env)"
  unfolding getDeviceToken_def by (intro blind_intros)

lemma blind_checkServerStatus: "blind (checkServerStatus env)"
  unfolding checkServerStatus_def by (intro blind_intros blind_getDeviceToken)

lemma blind_getLocalData: "blind (getLocalData env)"
  unfolding getLocalData_def by (intro blind_intros)

lemma blind_startTrial: "blind (startTrial env)"
  unfolding startTrial_def Let_def by (intro blind_intros blind_getDeviceToken)

lemma resetsD_Inr: "resets m \<Longrightarrow> m w = (Inr x, w') \<Longrightarrow> m (with_cache c t w) = (Inr x, w')"
  and resetsD_Inl: "resets m \<Longrightarrow> m w = (Inl e, w') \<Longrightarrow> m (with_cache c t w) = (Inl e, with_cache c t w')"
  by (simp_all add: resets_def)

lemma resets_optD_Some:
    "resets_opt m \<Longrightarrow> m w = (Inr (Some x), w') \<Longrightarrow> m (with_cache c t w) = (Inr (Some x), w')"
  and resets_optD_None:
    "resets_opt m \<Longrightarrow> m w = (Inr None, w') \<Longrightarrow> m (with_cache c t w) = (Inr None, with_cache c t w')"
  and resets_optD_Inl:
    "resets_opt m \<Longrightarrow> m w = (Inl e, w') \<Longrightarrow> m (with_cache c t w) = (Inl e, with_cache c t w')"
  by (simp_all add: resets_opt_def)

lemma resets_throw: "resets (io_throw e)"
  by (simp add: resets_def io_throw_def)

lemma resets_cache_and_return: "resets (cache_and_return env st)"
  by (simp add: resets_def cache_and_return_def with_cache_def)

lemma resets_bind:
  assumes "blind m" and "\<And>x. resets (f x)"
  shows "resets (io_bind m f)"
  unfolding resets_def
proof (intro allI)
  fix c t w
  obtain r w1 where m: "m w = (r, w1)" by (cases "m w")
  from blindD [OF assms(1) m] have mc: "m (with_cache c t w) = (r, with_cache c t w1)" .
  show "io_bind m f (with_cache c t w) =
          (case io_bind m f w of (Inr x, w') \<Rightarrow> (Inr x, w') | (Inl e, w') \<Rightarrow> (Inl e, with_cache c t w'))"
  proof (cases r)
    case (Inl e)
    with m mc show ?thesis by (simp add: io_bind_def)
  next
    case (Inr x)
    obtain r2 w2 where f: "f x w1 = (r2, w2)" by (cases "f x w1")
    show ?thesis
    proof (cases r2)
      case (Inl e)
      with resetsD_Inl [OF assms(2)] f m mc Inr show ?thesis by (simp add: io_bind_def)
    next
      case r2: (Inr y)
      with resetsD_Inr [OF assms(2)] f m mc Inr show ?thesis by (simp add: io_bind_def)
    qed
  qed
qed

lemma resets_catch:
  assumes "resets m" and "\<And>e. resets (h e)"
  shows "resets (io_catch m h)"
  unfolding resets_def
proof (intro allI)
  fix c t w
  obtain r w1 where m: "m w = (r, w1)" by (cases "m w")
  show "io_catch m h (with_cache c t w) =
          (case io_catch m h w of (Inr x, w') \<Rightarrow> (Inr x, w') | (Inl e, w') \<Rightarrow> (Inl e, with_cache c t w'))"
  proof (cases r)
    case (Inr x)
    with resetsD_Inr [OF assms(1)] m show ?thesis by (simp add: io_catch_def)
  next
    case (Inl e)
    with resetsD_Inl [OF assms(1)] m
    have mc: "m (with_cache c t w) = (Inl e, with_cache c t w1)" by simp
    obtain r2 w2 where h: "h e w1 = (r2, w2)" by (cases "h e w1")
    show ?thesis
    proof (cases r2)
      case (Inl e2)
      with resetsD_Inl [OF assms(2)] h m mc \<open>r = Inl e\<close> show ?thesis by (simp add: io_catch_def)
    next
      case (Inr y)
      with resetsD_Inr [OF assms(2)] h m mc \<open>r = Inl e\<close> show ?thesis by (simp add: io_catch_def)
    qed
  qed
qed

lemma resets_if: "(c \<Longrightarrow> resets a) \<Longrightarrow> (\<not> c \<Longrightarrow> resets b) \<Longrightarrow> resets (if c then a else b)"
  by simp

lemma resets_case_prod: "(\<And>x y. resets (f x y)) \<Longrightarrow> resets (case p of (x, y) \<Rightarrow> f x y)"
  by (cases p) simp

lemma resets_after_opt:
  assumes "resets_opt m" and "resets k"
  shows "resets (io_bind m (\<lambda>r. case r of Some result \<Rightarrow> io_return result | None \<Rightarrow> k))"
  unfolding resets_def
proof (intro allI)
  fix c t w
  let ?f = "\<lambda>r. case r of Some result \<Rightarrow> io_return result | None \<Rightarrow> k"
  obtain r w1 where m: "m w = (r, w1)" by (cases "m w")
  show "io_bind m ?f (with_cache c t w) =
          (case io_bind m ?f w of (Inr x, w') \<Rightarrow> (Inr x, w') | (Inl e, w') \<Rightarrow> (Inl e, with_cache c t w'))"
  proof (cases r)
    case (Inl e)
    with resets_optD_Inl [OF assms(1)] m show ?thesis by (simp add: io_bind_def)
  next
    case (Inr x)
    show ?thesis
    proof (cases x)
      case (Some result)
      with resets_optD_Some [OF assms(1)] m Inr show ?thesis
        by (simp add: io_bind_def io_return_def)
    next
      case None
      with resets_optD_None [OF assms(1)] m Inr
      have mc: "m (with_cache c t w) = (Inr None, with_cache c t w1)" by simp
      obtain r2 w2 where k: "k w1 = (r2, w2)" by (cases "k w1")
      show ?thesis
      proof (cases r2)
        case (Inl e2)
        with resetsD_Inl [OF assms(2)] k m mc Inr None show ?thesis by (simp add: io_bind_def)
      next
        case r2: (Inr y)
        with resetsD_Inr [OF assms(2)] k m mc Inr None show ?thesis by (simp add: io_bind_def)
      qed
    qed
  qed
qed

lemma resets_opt_return_None: "resets_opt (io_return None)"
  and resets_opt_throw: "resets_opt (io_throw e)"
  by (simp_all add: resets_opt_def io_return_def io_throw_def)

lemma resets_opt_cached:
  "resets_opt (io_bind (cache_and_return env st) (\<lambda>result. io_return (Some result)))"
  by (simp add: resets_opt_def cache_and_return_def io_bind_def io_return_def with_cache_def)

lemma resets_opt_bind:
  assumes "blind m" and "\<And>x. resets_opt (f x)"
  shows "resets_opt (io_bind m f)"
  unfolding resets_opt_def
proof (intro allI)
  fix c t w
  obtain r w1 where m: "m w = (r, w1)" by (cases "m w")
  from blindD [OF assms(1) m] have mc: "m (with_cache c t w) = (r, with_cache c t w1)" .
  show "io_bind m f (with_cache c t w) =
          (case io_bind m f w of
             (Inr (Some x), w') \<Rightarrow> (Inr (Some x), w')
           | (Inr None, w') \<Rightarrow> (Inr None, with_cache c t w')
           | (Inl e, w') \<Rightarrow> (Inl e, with_cache c t w'))"
  proof (cases r)
    case (Inl e)
    with m mc show ?thesis by (simp add: io_bind_def)
  next
    case (Inr x)
    obtain r2 w2 where f: "f x w1 = (r2, w2)" by (cases "f x w1")
    show ?thesis
    proof (cases r2)
      case (Inl e)
      with resets_optD_Inl [OF assms(2)] f m mc Inr show ?thesis by (simp add: io_bind_def)
    next
      case r2: (Inr y)
      show ?thesis
      proof (cases y)
        case None
        with resets_optD_None [OF assms(2)] f m mc Inr r2 show ?thesis by (simp add: io_bind_def)
      next
        case (Some z)
        with resets_optD_Some [OF assms(2)] f m mc Inr r2 show ?thesis by (simp add: io_bind_def)
      qed
    qed
  qed
qed

lemma resets_opt_catch:
  assumes "resets_opt m" and "\<And>e. resets_opt (h e)"
  shows "resets_opt (io_catch m h)"
  unfolding resets_opt_def
proof (intro allI)
  fix c t w
  obtain r w1 where m: "m w = (r, w1)" by (cases "m w")
  show "io_catch m h (with_cache c t w) =
          (case io_catch m h w of
             (Inr (Some x), w') \<Rightarrow> (Inr (Some x), w')
           | (Inr None, w') \<Rightarrow> (Inr None, with_cache c t w')
           | (Inl e, w') \<Rightarrow> (Inl e, with_cache c t w'))"
  proof (cases r)
    case (Inr y)
    show ?thesis
    proof (cases y)
      case None
      with resets_optD_None [OF assms(1)] m Inr show ?thesis by (simp add: io_catch_def)
    next
      case (Some z)
      with resets_optD_Some [OF assms(1)] m Inr show ?thesis by (simp add: io_catch_def)
    qed
  next
    case (Inl e)
    with resets_optD_Inl [OF assms(1)] m
    have mc: "m (with_cache c t w) = (Inl e, with_cache c t w1)" by simp
    obtain r2 w2 where h: "h e w1 = (r2, w2)" by (cases "h e w1")
    show ?thesis
    proof (cases r2)
      case (Inl e2)
      with resets_optD_Inl [OF assms(2)] h m mc \<open>r = Inl e\<close> show ?thesis by (simp add: io_catch_def)
    next
      case r2: (Inr y)
      show ?thesis
      proof (cases y)
        case None
        with resets_optD_None [OF assms(2)] h m mc \<open>r = Inl e\<close> r2 show ?thesis
          by (simp add: io_catch_def)
      next
        case (Some z)
        with resets_optD_Some [OF assms(2)] h m mc \<open>r = Inl e\<close> r2 show ?thesis
          by (simp add: io_catch_def)
      qed
    qed
  qed
qed

lemma resets_opt_if:
  "(c \<Longrightarrow> resets_opt a) \<Longrightarrow> (\<not> c \<Longrightarrow> resets_opt b) \<Longrightarrow> resets_opt (if c then a else b)"
  by simp

lemmas resets_intros = resets_throw resets_cache_and_return resets_bind resets_catch resets_if
  resets_case_prod resets_opt_return_None resets_opt_throw resets_opt_cached resets_opt_bind
  resets_opt_catch resets_opt_if

lemma resets_checkLocalTrial: "resets (checkLocalTrial env t)"
  unfolding checkLocalTrial_def Let_def
  by (intro resets_intros blind_intros)

lemma resets_opt_restoreServerTrial: "resets_opt (restoreServerTrial env tok)"
  unfolding restoreServerTrial_def Let_def
  by (intro resets_intros blind_intros)

lemma resets_opt_checkServerTrial: "resets_opt (checkServerTrial env tok)"
  unfolding checkServerTrial_def
  by (intro resets_intros resets_opt_restoreServerTrial)

lemma resets_opt_trialPrecheck: "resets_opt (trialPrecheck env tok)"
  unfolding trialPrecheck_def
  by (intro resets_intros blind_intros)

lemma resets_tryStartTrial: "resets (tryStartTrial env)"
  unfolding tryStartTrial_def Let_def
  by (intro resets_intros blind_intros blind_startTrial)

lemma resets_localFallback: "resets (localFallback env tok localData)"
  unfolding localFallback_def
  by (intro resets_intros resets_checkLocalTrial resets_after_opt resets_opt_trialPrecheck
        resets_tryStartTrial)

lemma resets_refreshStatus: "resets (refreshStatus env)"
  unfolding refreshStatus_def
  by (intro resets_intros resets_after_opt resets_opt_checkServerTrial resets_localFallback
        blind_intros blind_checkServerStatus blind_getDeviceToken blind_getLocalData)

lemma forced_refresh_ignores_cache:
  "getUnifiedSubscriptionStatus env True (with_cache c t w) = getUnifiedSubscriptionStatus env True w"
proof -
  let ?w0 = "w\<lparr>clock_reads := Suc (clock_reads w)\<rparr>"
  have stale: "\<not> cache_is_fresh True now w'" for now w'
    by (simp add: cache_is_fresh_def)
  have comm: "(with_cache c t w)\<lparr>clock_reads := Suc (clock_reads w)\<rparr> = with_cache c t ?w0"
    by (simp add: with_cache_def)
  have t1: "getUnifiedSubscriptionStatus_try env True w = refreshStatus env ?w0"
    by (rule try_stale [OF stale])
  have t2: "getUnifiedSubscriptionStatus_try env True (with_cache c t w)
              = refreshStatus env (with_cache c t ?w0)"
    using try_stale [OF stale, of env "with_cache c t w"] by (simp add: comm)
  obtain r w1 where run: "refreshStatus env ?w0 = (r, w1)" by (cases "refreshStatus env ?w0")
  show ?thesis
  proof (cases r)
    case (Inr st)
    with resetsD_Inr [OF resets_refreshStatus] run t1 t2 show ?thesis
      by (simp add: getUnifiedSubscriptionStatus_def io_catch_def)
  next
    case (Inl e)
    with resetsD_Inl [OF resets_refreshStatus] run t1 t2 show ?thesis
      by (simp add: getUnifiedSubscriptionStatus_def io_catch_def cache_and_return_def with_cache_def)
  qed
qed

subsection \<open>The claims on the reconciler\<close>

text \<open>The definitions that evaluate a run on a concrete environment and world.\<close>

lemmas run_defs =
  getUnifiedSubscriptionStatus_def getUnifiedSubscriptionStatus_try_def refreshStatus_def
  checkServerStatus_def checkServerTrial_def restoreServerTrial_def getLocalData_def
  localFallback_def checkLocalTrial_def trialPrecheck_def tryStartTrial_def startTrial_def
  error_message_def denial_message_def
  precheck_details_def getDeviceToken_def
  storage_local_get_def storage_local_set_def storage_sync_set_def dateNow_def
  cache_and_return_def cache_is_fresh_def get_prop_def fetch_def response_json_def
  response_ok_def trial_request_def worker_request_def no_options_def write_items_def
  makeWorkerRequest_eq attempt_outcome_def fetched_def slept_def
  io_bind_def io_catch_def io_return_def io_throw_def io_gets_def Let_def
  str_includes_def sublist_code prefix_code
  WORKER_URL_def TRIAL_DURATION_DAYS_def DEVICE_TOKEN_KEY_def SUBSCRIPTION_KEY_def TRIAL_KEY_def
  TRIAL_USED_FLAG_def CACHE_DURATION_def
  status_trial_active_def status_trial_expired_def status_corrupted_date_def
  status_date_parsing_error_def status_trial_denied_def status_unverified_def
  status_check_failed_def

lemmas example_defs = offline_env_def flaky_env_def fresh_world_def trial_world_def
  stored_trial_def

text \<open>
  Claim C1. From every world and under every environment, \<^verbatim>\<open>getUnifiedSubscriptionStatus\<close>
  and \<^verbatim>\<open>startTrial\<close> only append events, and every write of the trial key among them comes
  after a 2xx JSON answer of the server, to a request made for the device token of the
  written record, that confirms the trial: for \<^verbatim>\<open>startTrial\<close> a \<^verbatim>\<open>/trial/register\<close> answer
  with a truthy \<^verbatim>\<open>success\<close>; for \<^verbatim>\<open>getUnifiedSubscriptionStatus\<close> that, or a
  \<^verbatim>\<open>/trial/status\<close> answer with a truthy \<^verbatim>\<open>hasTrial\<close>.
\<close>

theorem C1_trial_writes_confirmed:
  "(\<exists>evs. trace (snd (getUnifiedSubscriptionStatus env forceRefresh w)) = trace w @ evs
          \<and> trial_writes_confirmed server_confirmed [] evs)
   \<and> (\<exists>evs. trace (snd (startTrial env w)) = trace w @ evs
          \<and> trial_writes_confirmed registered [] evs)"
  using confined_getUnifiedSubscriptionStatus [of env forceRefresh] confined_startTrial [of env]
  unfolding confined_def by blast

text \<open>
  Witness for C1: a fresh installation on a server that grants the trial; both methods
  write the trial record, after the confirmation.
\<close>

theorem C1_trial_writes_confirmed_witness:
  "trial_writes_confirmed server_confirmed []
     (trace (snd (getUnifiedSubscriptionStatus granting_env False fresh_world)))
   \<and> trial_writes_confirmed registered [] (trace (snd (startTrial granting_env fresh_world)))
   \<and> field (local_storage (snd (getUnifiedSubscriptionStatus granting_env False fresh_world)) ''trial'')
        ''serverVerified'' = JBool True
   \<and> field (local_storage (snd (startTrial granting_env fresh_world)) ''trial'')
        ''serverVerified'' = JBool True"
proof -
  have t0: "trace fresh_world = []" by (simp add: fresh_world_def)
  have a: "field (local_storage (snd (getUnifiedSubscriptionStatus granting_env False fresh_world)) ''trial'')
        ''serverVerified'' = JBool True"
    by (simp add: run_defs example_defs granting_env_def)
  have b: "field (local_storage (snd (startTrial granting_env fresh_world)) ''trial'')
        ''serverVerified'' = JBool True"
    by (simp add: run_defs example_defs granting_env_def)
  from C1_trial_writes_confirmed [of granting_env False fresh_world] a b show ?thesis
    by (simp add: t0)
qed

lemma checkServerStatus_clock_blind:
  "fst (checkServerStatus env (w\<lparr>clock_reads := n\<rparr>)) = fst (checkServerStatus env w)"
  by (simp add: checkServerStatus_def getDeviceToken_eq io_defs makeWorkerRequest_eq Let_def
      fetched_def slept_def storage_local_set_def
      split: option.splits sum.splits)

text \<open>
  When the cache is bypassed and \<^verbatim>\<open>_checkServerStatus\<close> returns, that is when the request
  and the local write of line 124 both succeed, with a truthy \<^verbatim>\<open>active\<close>, the status
  returned is the server's answer, whatever the local trial record is.
\<close>

lemma remote_active_returned:
  assumes bypass: "\<not> cache_is_fresh forceRefresh (clock_oracle env (clock_reads w)) w"
    and remote: "fst (checkServerStatus env w) = Inr data"
    and active: "truthy (field data ''active'')"
  shows "fst (getUnifiedSubscriptionStatus env forceRefresh w) = Inr data
       \<and> statusCache (snd (getUnifiedSubscriptionStatus env forceRefresh w)) = data"
proof -
  let ?w0 = "w\<lparr>clock_reads := Suc (clock_reads w)\<rparr>"
  from remote have "fst (checkServerStatus env ?w0) = Inr data"
    by (simp add: checkServerStatus_clock_blind)
  then obtain w1 where w1: "checkServerStatus env ?w0 = (Inr data, w1)"
    by (cases "checkServerStatus env ?w0") auto
  from active have "truthy data" by (rule truthy_field_imp_truthy)
  with active w1 have "refreshStatus env ?w0 =
      (Inr data, w1\<lparr>statusCache := data, cacheTimestamp := clock_oracle env (clock_reads w1),
                     clock_reads := Suc (clock_reads w1)\<rparr>)"
    by (simp add: refreshStatus_def io_bind_def io_catch_def cache_and_return_def)
  with try_stale [OF bypass] show ?thesis
    by (simp add: getUnifiedSubscriptionStatus_def io_catch_def)
qed

text \<open>
  An example: a stored trial record with a corrupt end date, and a server that reports an
  active subscription at the third attempt.
\<close>

lemma remote_active_returned_example:
  "\<not> cache_is_fresh False (clock_oracle flaky_env (clock_reads (trial_world (JStr ''not a date''))))
        (trial_world (JStr ''not a date''))
   \<and> fst (checkServerStatus flaky_env (trial_world (JStr ''not a date'')))
       = Inr (JObj [(''active'', JBool True), (''plan'', JStr ''pro-monthly'')])
   \<and> truthy (field (JObj [(''active'', JBool True), (''plan'', JStr ''pro-monthly'')]) ''active'')
   \<and> truthy (local_storage (trial_world (JStr ''not a date'')) ''trial'')
   \<and> fst (getUnifiedSubscriptionStatus flaky_env False (trial_world (JStr ''not a date'')))
       = Inr (JObj [(''active'', JBool True), (''plan'', JStr ''pro-monthly'')])"
proof -
  have h1: "\<not> cache_is_fresh False (clock_oracle flaky_env (clock_reads (trial_world (JStr ''not a date''))))
        (trial_world (JStr ''not a date''))"
    by (simp add: cache_is_fresh_def example_defs)
  have h2: "fst (checkServerStatus flaky_env (trial_world (JStr ''not a date'')))
       = Inr (JObj [(''active'', JBool True), (''plan'', JStr ''pro-monthly'')])"
    by (simp add: run_defs example_defs)
  have h3: "truthy (field (JObj [(''active'', JBool True), (''plan'', JStr ''pro-monthly'')]) ''active'')"
    by simp
  have h4: "truthy (local_storage (trial_world (JStr ''not a date'')) ''trial'')"
    by (simp add: example_defs)
  from remote_active_returned [OF h1 h2 h3] h1 h2 h3 h4 show ?thesis
    by simp
qed

text \<open>
  Claim C3, evaluated where the server reports an active subscription at the first attempt
  and the local write of the answer (line 124) rejects. \<^verbatim>\<open>_checkServerStatus\<close> rethrows
  the storage error (lines 126--129), \<^verbatim>\<open>getUnifiedSubscriptionStatus\<close> takes it for a failed
  server check (lines 149--152) and drops the answer: with a stored trial record whose end
  date is corrupt, the status returned is \<^verbatim>\<open>trial_expired\<close>, not the active status that the
  claim and the comment of line 154 (\<^verbatim>\<open>If server says active subscription, trust it\<close>)
  give.
\<close>

theorem C3_active_answer_dropped:
  "fetch_oracle quota_env 0 (worker_request ''/check?token=device_1'' no_options)
     = Resolves (Response 200 ''OK'' (Json (JObj [(''active'', JBool True), (''plan'', JStr ''pro-monthly'')])))
   \<and> truthy (field (JObj [(''active'', JBool True), (''plan'', JStr ''pro-monthly'')]) ''active'')
   \<and> fst (checkServerStatus quota_env (trial_world (JStr ''not a date'')))
       = Inl (Error ''QUOTA_BYTES quota exceeded'')
   \<and> fst (getUnifiedSubscriptionStatus quota_env False (trial_world (JStr ''not a date'')))
       = Inr (status_corrupted_date (JStr ''not a date''))
   \<and> field (status_corrupted_date (JStr ''not a date'')) ''plan'' = JStr ''trial_expired''
   \<and> field (status_corrupted_date (JStr ''not a date'')) ''active'' = JBool False"
  by (simp add: run_defs example_defs quota_env_def)

text \<open>
  Claim C4. (a) Without \<^verbatim>\<open>forceRefresh\<close>, a truthy cached status younger than 30000 ms is
  returned as it is, and the world changes by one clock read only: no \<^verbatim>\<open>fetch\<close>, no
  storage call. (b) After any call, a call without \<^verbatim>\<open>forceRefresh\<close> made while the cache
  fields are as the first call left them and younger than 30000 ms returns the same
  status, again with one clock read only. (c) With \<^verbatim>\<open>forceRefresh\<close> the result and the
  final world do not depend on the cache fields at all.
\<close>

theorem C4_status_cache:
  "(cache_is_fresh False (clock_oracle env (clock_reads w)) w \<longrightarrow>
      getUnifiedSubscriptionStatus env False w =
        (Inr (statusCache w), w\<lparr>clock_reads := Suc (clock_reads w)\<rparr>))
   \<and> (\<forall>w2. statusCache w2 = statusCache (snd (getUnifiedSubscriptionStatus env forceRefresh w))
          \<and> cacheTimestamp w2 = cacheTimestamp (snd (getUnifiedSubscriptionStatus env forceRefresh w))
          \<and> clock_oracle env (clock_reads w2) - cacheTimestamp w2 < CACHE_DURATION \<longrightarrow>
        getUnifiedSubscriptionStatus env False w2 =
          (fst (getUnifiedSubscriptionStatus env forceRefresh w), w2\<lparr>clock_reads := Suc (clock_reads w2)\<rparr>))
   \<and> getUnifiedSubscriptionStatus env True (w\<lparr>statusCache := c, cacheTimestamp := t\<rparr>)
       = getUnifiedSubscriptionStatus env True w"
proof (intro conjI allI impI)
  show hit: "getUnifiedSubscriptionStatus env False w' =
        (Inr (statusCache w'), w'\<lparr>clock_reads := Suc (clock_reads w')\<rparr>)"
    if "cache_is_fresh False (clock_oracle env (clock_reads w')) w'" for w'
    using try_fresh [OF that] by (simp add: getUnifiedSubscriptionStatus_def io_catch_def)
  show "getUnifiedSubscriptionStatus env False w2 =
          (fst (getUnifiedSubscriptionStatus env forceRefresh w), w2\<lparr>clock_reads := Suc (clock_reads w2)\<rparr>)"
    if second: "statusCache w2 = statusCache (snd (getUnifiedSubscriptionStatus env forceRefresh w))
          \<and> cacheTimestamp w2 = cacheTimestamp (snd (getUnifiedSubscriptionStatus env forceRefresh w))
          \<and> clock_oracle env (clock_reads w2) - cacheTimestamp w2 < CACHE_DURATION" for w2
  proof -
    obtain st w1 where first: "getUnifiedSubscriptionStatus env forceRefresh w = (Inr st, w1)"
      using getUnifiedSubscriptionStatus_returns by blast
    with settles_getUnifiedSubscriptionStatus [of env forceRefresh]
    have cached: "statusCache w1 = st" "truthy st"
      unfolding settles_def by blast+
    with second first have "cache_is_fresh False (clock_oracle env (clock_reads w2)) w2"
      by (simp add: cache_is_fresh_def)
    from hit [OF this] second first cached show ?thesis by simp
  qed
  show "getUnifiedSubscriptionStatus env True (w\<lparr>statusCache := c, cacheTimestamp := t\<rparr>)
       = getUnifiedSubscriptionStatus env True w"
    using forced_refresh_ignores_cache [of env c t w] by (simp add: with_cache_def)
qed

text \<open>
  Witness for C4: a status cached ten seconds ago is returned twice in a row while off
  line, and a forced refresh from that world does what it does from a world without cache.
\<close>

theorem C4_status_cache_witness:
  "cache_is_fresh False (clock_oracle offline_env (clock_reads cached_world)) cached_world
   \<and> getUnifiedSubscriptionStatus offline_env False cached_world =
       (Inr (status_trial_expired (JStr ''2023-11-01T00:00:00.000Z'')), cached_world\<lparr>clock_reads := 1\<rparr>)
   \<and> getUnifiedSubscriptionStatus offline_env False (cached_world\<lparr>clock_reads := 1\<rparr>) =
       (Inr (status_trial_expired (JStr ''2023-11-01T00:00:00.000Z'')), cached_world\<lparr>clock_reads := 2\<rparr>)
   \<and> getUnifiedSubscriptionStatus offline_env True cached_world
       = getUnifiedSubscriptionStatus offline_env True fresh_world"
proof -
  have fresh: "cache_is_fresh False (clock_oracle offline_env (clock_reads cached_world)) cached_world"
    by (simp add: cache_is_fresh_def example_defs cached_world_def status_trial_expired_def CACHE_DURATION_def)
  note C4 = C4_status_cache [where env = offline_env and w = cached_world and forceRefresh = False
              and c = "statusCache cached_world" and t = "cacheTimestamp cached_world"]
  from C4 fresh have first: "getUnifiedSubscriptionStatus offline_env False cached_world =
       (Inr (statusCache cached_world), cached_world\<lparr>clock_reads := Suc (clock_reads cached_world)\<rparr>)"
    by blast
  have facts: "clock_reads cached_world = 0" "cacheTimestamp cached_world = 1699999990000"
    "clock_oracle offline_env (Suc 0) = 1700000000001"
    "statusCache cached_world = status_trial_expired (JStr ''2023-11-01T00:00:00.000Z'')"
    by (simp_all add: example_defs cached_world_def)
  from first have s1: "snd (getUnifiedSubscriptionStatus offline_env False cached_world)
       = cached_world\<lparr>clock_reads := 1\<rparr>"
    and f1: "fst (getUnifiedSubscriptionStatus offline_env False cached_world)
       = Inr (statusCache cached_world)"
    by (simp_all add: facts)
  have again: "getUnifiedSubscriptionStatus offline_env False (cached_world\<lparr>clock_reads := 1\<rparr>) =
       (Inr (statusCache cached_world), cached_world\<lparr>clock_reads := 2\<rparr>)"
    using conjunct1 [OF conjunct2 [OF C4], rule_format, of "cached_world\<lparr>clock_reads := 1\<rparr>"]
    by (simp add: s1 f1 facts CACHE_DURATION_def numeral_2_eq_2)
  have forced: "getUnifiedSubscriptionStatus offline_env True cached_world
       = getUnifiedSubscriptionStatus offline_env True fresh_world"
    using C4_status_cache [where env = offline_env and w = fresh_world and forceRefresh = False
              and c = "statusCache cached_world" and t = "cacheTimestamp cached_world"]
    by (simp add: example_defs cached_world_def)
  from fresh first again forced show ?thesis
    by (simp add: facts)
qed

text \<open>
  Claim C9. \<^verbatim>\<open>getUnifiedSubscriptionStatus\<close> returns under every environment (every
  outcome of every \<^verbatim>\<open>fetch\<close>, storage call and clock read) and from every world: the
  result is never an exception, it is a truthy value, and it is the cached status of the
  final world. When the body of its \<^verbatim>\<open>try\<close> throws, the status is the one with plan
  \<^verbatim>\<open>error\<close> and message \<^verbatim>\<open>Error checking subscription\<close>.
\<close>

theorem C9_never_throws:
  "(\<exists>st. fst (getUnifiedSubscriptionStatus env forceRefresh w) = Inr st \<and> truthy st
         \<and> statusCache (snd (getUnifiedSubscriptionStatus env forceRefresh w)) = st)
   \<and> (\<forall>e w1. getUnifiedSubscriptionStatus_try env forceRefresh w = (Inl e, w1) \<longrightarrow>
         fst (getUnifiedSubscriptionStatus env forceRefresh w) = Inr status_check_failed)"
proof (intro conjI allI impI)
  obtain st w1 where run: "getUnifiedSubscriptionStatus env forceRefresh w = (Inr st, w1)"
    using getUnifiedSubscriptionStatus_returns by blast
  with settles_getUnifiedSubscriptionStatus [of env forceRefresh]
  have "statusCache w1 = st" "truthy st"
    unfolding settles_def by blast+
  with run show "\<exists>st. fst (getUnifiedSubscriptionStatus env forceRefresh w) = Inr st \<and> truthy st
         \<and> statusCache (snd (getUnifiedSubscriptionStatus env forceRefresh w)) = st"
    by simp
next
  fix e w1
  assume "getUnifiedSubscriptionStatus_try env forceRefresh w = (Inl e, w1)"
  then show "fst (getUnifiedSubscriptionStatus env forceRefresh w) = Inr status_check_failed"
    by (simp add: getUnifiedSubscriptionStatus_def io_catch_def cache_and_return_def)
qed

text \<open>
  Witness for C9: off line, the read of the local records rejects; the exception becomes
  the error status.
\<close>

theorem C9_never_throws_witness:
  "fst (getUnifiedSubscriptionStatus_try storage_failing_env False fresh_world)
     = Inl (Error ''QUOTA_BYTES quota exceeded'')
   \<and> fst (getUnifiedSubscriptionStatus storage_failing_env False fresh_world) = Inr status_check_failed
   \<and> truthy status_check_failed
   \<and> statusCache (snd (getUnifiedSubscriptionStatus storage_failing_env False fresh_world))
       = status_check_failed"
proof -
  have body: "fst (getUnifiedSubscriptionStatus_try storage_failing_env False fresh_world)
     = Inl (Error ''QUOTA_BYTES quota exceeded'')"
    by (simp add: run_defs example_defs storage_failing_env_def)
  then obtain w1 where "getUnifiedSubscriptionStatus_try storage_failing_env False fresh_world
     = (Inl (Error ''QUOTA_BYTES quota exceeded''), w1)"
    by (cases "getUnifiedSubscriptionStatus_try storage_failing_env False fresh_world") simp
  with C9_never_throws [of storage_failing_env False fresh_world] body show ?thesis
    by auto
qed

subsection \<open>Runs that reach the local records\<close>

text \<open>
  The lemmas of this part share two hypotheses: no \<^verbatim>\<open>chrome.storage\<close> call rejects, and
  no 2xx JSON answer of the server has a truthy \<^verbatim>\<open>active\<close> or \<^verbatim>\<open>hasTrial\<close>. The server may
  fail in any other way, at any attempt.
\<close>

lemma drifted_refl: "drifted w w"
  unfolding drifted_def
  by (rule exI [of _ "local_storage w SUBSCRIPTION_KEY"], rule exI [of _ "fetches w"],
      rule exI [of _ "storage_ops w"], rule exI [of _ "[]"]) simp

lemma drifted_trans:
  assumes "drifted w w1" and "drifted w1 w2"
  shows "drifted w w2"
proof -
  from assms(1) obtain s1 n1 k1 e1 where
    w1: "w1 = w\<lparr>local_storage := (local_storage w)(SUBSCRIPTION_KEY := s1),
                fetches := n1, storage_ops := k1, trace := trace w @ e1\<rparr>"
    and s1: "s1 = local_storage w SUBSCRIPTION_KEY \<or> \<not> truthy (field s1 ''active'')"
    and e1: "list_all harmless e1"
    unfolding drifted_def by blast
  from assms(2) obtain s2 n2 k2 e2 where
    w2: "w2 = w1\<lparr>local_storage := (local_storage w1)(SUBSCRIPTION_KEY := s2),
                fetches := n2, storage_ops := k2, trace := trace w1 @ e2\<rparr>"
    and s2: "s2 = local_storage w1 SUBSCRIPTION_KEY \<or> \<not> truthy (field s2 ''active'')"
    and e2: "list_all harmless e2"
    unfolding drifted_def by blast
  have "w2 = w\<lparr>local_storage := (local_storage w)(SUBSCRIPTION_KEY := s2),
                fetches := n2, storage_ops := k2, trace := trace w @ (e1 @ e2)\<rparr>"
    by (simp add: w1 w2)
  moreover have "s2 = local_storage w SUBSCRIPTION_KEY \<or> \<not> truthy (field s2 ''active'')"
    using s1 s2 by (auto simp: w1)
  moreover have "list_all harmless (e1 @ e2)"
    using e1 e2 by simp
  ultimately show ?thesis
    unfolding drifted_def by blast
qed

lemma drifted_sel:
  assumes "drifted w w'"
  shows "clock_reads w' = clock_reads w" "statusCache w' = statusCache w"
    "cacheTimestamp w' = cacheTimestamp w" "sync_storage w' = sync_storage w"
    "local_storage w' TRIAL_KEY = local_storage w TRIAL_KEY"
    "local_storage w' DEVICE_TOKEN_KEY = local_storage w DEVICE_TOKEN_KEY"
    "\<not> truthy (field (local_storage w SUBSCRIPTION_KEY) ''active'') \<Longrightarrow>
       \<not> truthy (field (local_storage w' SUBSCRIPTION_KEY) ''active'')"
    "\<exists>evs. trace w' = trace w @ evs \<and> list_all harmless evs"
  using assms unfolding drifted_def
  by (auto simp: SUBSCRIPTION_KEY_def TRIAL_KEY_def DEVICE_TOKEN_KEY_def)

lemma drifted_storage_op: "drifted w (w\<lparr>storage_ops := k\<rparr>)"
  unfolding drifted_def
  by (rule exI [of _ "local_storage w SUBSCRIPTION_KEY"], rule exI [of _ "fetches w"],
      rule exI [of _ k], rule exI [of _ "[]"]) simp

lemma attempts_harmless:
  assumes "list_all (is_attempt req) evs"
    and "url req \<noteq> WORKER_URL @ ''/trial/check''" and "url req \<noteq> WORKER_URL @ ''/trial/register''"
  shows "list_all harmless evs"
  using assms(1)
proof (induction evs)
  case Nil
  then show ?case by simp
next
  case (Cons e es)
  then show ?case using assms(2,3) by (cases e) (simp_all add: harmless_def)
qed

lemma getLocalData_eq:
  "storage_oracle env (storage_ops w) = None \<Longrightarrow>
   getLocalData env w =
     (Inr (local_storage w SUBSCRIPTION_KEY, local_storage w TRIAL_KEY),
      w\<lparr>storage_ops := Suc (storage_ops w)\<rparr>)"
  by (simp add: getLocalData_def storage_local_get_def io_bind_def io_return_def)

lemma quiet_server_check:
  assumes storage: "\<forall>k. storage_oracle env k = None"
    and quiet: "\<forall>n req r d. fetch_oracle env n req = Resolves r \<and> response_ok r \<and> payload r = Json d
                  \<longrightarrow> \<not> truthy (field d ''active'') \<and> \<not> truthy (field d ''hasTrial'')"
  shows "\<exists>r w1. io_catch (checkServerStatus env) (\<lambda>error. io_return JNull) w = (Inr r, w1)
           \<and> \<not> truthy (field r ''active'') \<and> drifted w w1"
proof -
  let ?tok = "local_storage w DEVICE_TOKEN_KEY"
  let ?wa = "w\<lparr>storage_ops := Suc (storage_ops w)\<rparr>"
  let ?ep = "''/check?token='' @ to_str ?tok"
  let ?req = "worker_request ?ep no_options"
  have tok: "getDeviceToken env w = (Inr ?tok, ?wa)"
    using storage by (simp add: getDeviceToken_eq)
  have url: "url ?req \<noteq> WORKER_URL @ ''/trial/check''" "url ?req \<noteq> WORKER_URL @ ''/trial/register''"
    by (simp_all add: worker_request_def)
  show ?thesis
  proof (cases "truthy ?tok")
    case False
    with tok have "io_catch (checkServerStatus env) (\<lambda>error. io_return JNull) w = (Inr JNull, ?wa)"
      by (simp add: checkServerStatus_def io_defs)
    moreover have "drifted w ?wa" by (rule drifted_storage_op)
    ultimately show ?thesis by auto
  next
    case True
    from makeWorkerRequest_cases [of env ?ep no_options ?wa] show ?thesis
    proof (elim disjE exE conjE)
      fix d r m n evs
      assume eq: "makeWorkerRequest env ?ep no_options ?wa =
          (Inr d, ?wa\<lparr>fetches := n, trace := (trace ?wa @ evs) @ [Fetched ?req (Resolves r)]\<rparr>)"
        and evs: "list_all (is_attempt ?req) evs"
        and r: "response_ok r" "payload r = Json d" "fetch_oracle env m ?req = Resolves r"
      from quiet r have inactive: "\<not> truthy (field d ''active'')" by blast
      let ?evs = "evs @ [Fetched ?req (Resolves r), LocalSet [(SUBSCRIPTION_KEY, d)]]"
      let ?w1 = "w\<lparr>local_storage := (local_storage w)(SUBSCRIPTION_KEY := d),
                    fetches := n, storage_ops := Suc (Suc (storage_ops w)), trace := trace w @ ?evs\<rparr>"
      have run: "io_catch (checkServerStatus env) (\<lambda>error. io_return JNull) w = (Inr d, ?w1)"
        using tok True eq storage
        by (simp add: checkServerStatus_def io_defs storage_local_set_def write_items_def)
      have "list_all harmless evs" using evs url by (rule attempts_harmless)
      then have "list_all harmless ?evs"
        using url by (simp add: harmless_def SUBSCRIPTION_KEY_def TRIAL_KEY_def)
      with inactive have "drifted w ?w1"
        unfolding drifted_def by blast
      with run inactive show ?thesis by blast
    next
      fix e n evs
      assume eq: "makeWorkerRequest env ?ep no_options ?wa = (Inl e, ?wa\<lparr>fetches := n, trace := trace ?wa @ evs\<rparr>)"
        and evs: "list_all (is_attempt ?req) evs"
      let ?w1 = "w\<lparr>local_storage := (local_storage w)(SUBSCRIPTION_KEY := local_storage w SUBSCRIPTION_KEY),
                    fetches := n, storage_ops := Suc (storage_ops w), trace := trace w @ evs\<rparr>"
      have run: "io_catch (checkServerStatus env) (\<lambda>error. io_return JNull) w = (Inr JNull, ?w1)"
        using tok True eq by (simp add: checkServerStatus_def io_defs)
      have "list_all harmless evs" using evs url by (rule attempts_harmless)
      then have "drifted w ?w1"
        unfolding drifted_def by blast
      with run show ?thesis by auto
    qed
  qed
qed

lemma quiet_server_trial:
  assumes quiet: "\<forall>n req r d. fetch_oracle env n req = Resolves r \<and> response_ok r \<and> payload r = Json d
                  \<longrightarrow> \<not> truthy (field d ''active'') \<and> \<not> truthy (field d ''hasTrial'')"
  shows "\<exists>w1. checkServerTrial env tok w = (Inr None, w1) \<and> drifted w w1"
proof (cases "truthy tok")
  case False
  then have "checkServerTrial env tok w = (Inr None, w)"
    by (simp add: checkServerTrial_def io_return_def)
  with drifted_refl [of w] show ?thesis by auto
next
  case True
  let ?opts = "\<lparr>opt_method = Some ''POST'', opt_headers = [],
                 opt_body = JObj [(''deviceToken'', tok)]\<rparr>"
  let ?req = "worker_request ''/trial/status'' ?opts"
  have url: "url ?req \<noteq> WORKER_URL @ ''/trial/check''" "url ?req \<noteq> WORKER_URL @ ''/trial/register''"
    by (simp_all add: worker_request_def)
  from makeWorkerRequest_cases [of env "''/trial/status''" ?opts w] show ?thesis
  proof (elim disjE exE conjE)
    fix d r m n evs
    assume eq: "makeWorkerRequest env ''/trial/status'' ?opts w =
        (Inr d, w\<lparr>fetches := n, trace := (trace w @ evs) @ [Fetched ?req (Resolves r)]\<rparr>)"
      and evs: "list_all (is_attempt ?req) evs"
      and r: "response_ok r" "payload r = Json d" "fetch_oracle env m ?req = Resolves r"
    from quiet r have none: "\<not> truthy (field d ''hasTrial'')" by blast
    let ?evs = "evs @ [Fetched ?req (Resolves r)]"
    let ?w1 = "w\<lparr>local_storage := (local_storage w)(SUBSCRIPTION_KEY := local_storage w SUBSCRIPTION_KEY),
                  fetches := n, storage_ops := storage_ops w, trace := trace w @ ?evs\<rparr>"
    have run: "checkServerTrial env tok w = (Inr None, ?w1)"
      using True eq none
      by (simp add: checkServerTrial_def restoreServerTrial_def io_defs get_prop_def)
    have "list_all harmless evs" using evs url by (rule attempts_harmless)
    then have "list_all harmless ?evs"
      using url by (simp add: harmless_def)
    then have "drifted w ?w1"
      unfolding drifted_def by blast
    with run show ?thesis by blast
  next
    fix e n evs
    assume eq: "makeWorkerRequest env ''/trial/status'' ?opts w = (Inl e, w\<lparr>fetches := n, trace := trace w @ evs\<rparr>)"
      and evs: "list_all (is_attempt ?req) evs"
    let ?w1 = "w\<lparr>local_storage := (local_storage w)(SUBSCRIPTION_KEY := local_storage w SUBSCRIPTION_KEY),
                  fetches := n, storage_ops := storage_ops w, trace := trace w @ evs\<rparr>"
    have run: "checkServerTrial env tok w = (Inr None, ?w1)"
      using True eq by (simp add: checkServerTrial_def restoreServerTrial_def io_defs)
    have "list_all harmless evs" using evs url by (rule attempts_harmless)
    then have "drifted w ?w1"
      unfolding drifted_def by blast
    with run show ?thesis by blast
  qed
qed

lemma quiet_refresh:
  assumes storage: "\<forall>k. storage_oracle env k = None"
    and quiet: "\<forall>n req r d. fetch_oracle env n req = Resolves r \<and> response_ok r \<and> payload r = Json d
                  \<longrightarrow> \<not> truthy (field d ''active'') \<and> \<not> truthy (field d ''hasTrial'')"
  shows "\<exists>w4. refreshStatus env w =
                 localFallback env (local_storage w DEVICE_TOKEN_KEY)
                   (local_storage w4 SUBSCRIPTION_KEY, local_storage w TRIAL_KEY) w4
              \<and> drifted w w4"
proof -
  from quiet_server_check [OF storage quiet, of w] obtain r w1 where
    s1: "io_catch (checkServerStatus env) (\<lambda>error. io_return JNull) w = (Inr r, w1)"
    and r: "\<not> truthy (field r ''active'')" and d1: "drifted w w1"
    by blast
  let ?tok = "local_storage w DEVICE_TOKEN_KEY"
  let ?w2 = "w1\<lparr>storage_ops := Suc (storage_ops w1)\<rparr>"
  have s2: "getDeviceToken env w1 = (Inr ?tok, ?w2)"
    using storage drifted_sel(6) [OF d1] by (simp add: getDeviceToken_eq)
  have d2: "drifted w ?w2"
    using d1 drifted_storage_op by (rule drifted_trans)
  from quiet_server_trial [OF quiet, of ?tok ?w2] obtain w3 where
    s3: "checkServerTrial env ?tok ?w2 = (Inr None, w3)" and d23: "drifted ?w2 w3"
    by blast
  have d3: "drifted w w3" using d2 d23 by (rule drifted_trans)
  let ?w4 = "w3\<lparr>storage_ops := Suc (storage_ops w3)\<rparr>"
  have s4: "getLocalData env w3 =
      (Inr (local_storage w3 SUBSCRIPTION_KEY, local_storage w3 TRIAL_KEY), ?w4)"
    using storage by (simp add: getLocalData_eq)
  have d4: "drifted w ?w4"
    using d3 drifted_storage_op by (rule drifted_trans)
  have "refreshStatus env w =
          localFallback env ?tok (local_storage w3 SUBSCRIPTION_KEY, local_storage w3 TRIAL_KEY) ?w4"
    using s1 r s2 s3 s4
    by (simp add: refreshStatus_def io_bind_def)
  moreover have "local_storage w3 TRIAL_KEY = local_storage w TRIAL_KEY"
    using drifted_sel(5) [OF d3] .
  moreover have "local_storage w3 SUBSCRIPTION_KEY = local_storage ?w4 SUBSCRIPTION_KEY"
    by simp
  ultimately show ?thesis using d4 by metis
qed

lemma checkLocalTrial_eq:
  "checkLocalTrial env t w =
     (Inr (case newDate env (field t ''trialEndsAt'') of
             None \<Rightarrow> status_corrupted_date (field t ''trialEndsAt'')
           | Some ends \<Rightarrow>
               if clock_oracle env (clock_reads w) < ends
               then status_trial_active (field t ''trialEndsAt'')
               else status_trial_expired (field t ''trialEndsAt'')),
      w\<lparr>statusCache :=
           (case newDate env (field t ''trialEndsAt'') of
             None \<Rightarrow> status_corrupted_date (field t ''trialEndsAt'')
           | Some ends \<Rightarrow>
               if clock_oracle env (clock_reads w) < ends
               then status_trial_active (field t ''trialEndsAt'')
               else status_trial_expired (field t ''trialEndsAt'')),
         cacheTimestamp := clock_oracle env (Suc (clock_reads w)),
         clock_reads := Suc (Suc (clock_reads w))\<rparr>)"
  by (simp add: checkLocalTrial_def io_defs dateNow_def cache_and_return_def Let_def
      split: option.splits)

lemma quiet_local_trial:
  assumes bypass: "\<not> cache_is_fresh forceRefresh (clock_oracle env (clock_reads w)) w"
    and storage: "\<forall>k. storage_oracle env k = None"
    and quiet: "\<forall>n req r d. fetch_oracle env n req = Resolves r \<and> response_ok r \<and> payload r = Json d
                  \<longrightarrow> \<not> truthy (field d ''active'') \<and> \<not> truthy (field d ''hasTrial'')"
    and sub: "\<not> truthy (field (local_storage w SUBSCRIPTION_KEY) ''active'')"
    and trial: "truthy (local_storage w TRIAL_KEY)"
  shows "\<exists>w4. getUnifiedSubscriptionStatus env forceRefresh w = checkLocalTrial env (local_storage w TRIAL_KEY) w4
           \<and> drifted (w\<lparr>clock_reads := Suc (clock_reads w)\<rparr>) w4"
proof -
  let ?w0 = "w\<lparr>clock_reads := Suc (clock_reads w)\<rparr>"
  from quiet_refresh [OF storage quiet, of ?w0] obtain w4 where
    run: "refreshStatus env ?w0 =
            localFallback env (local_storage ?w0 DEVICE_TOKEN_KEY)
              (local_storage w4 SUBSCRIPTION_KEY, local_storage ?w0 TRIAL_KEY) w4"
    and d: "drifted ?w0 w4"
    by blast
  have "\<not> truthy (field (local_storage w4 SUBSCRIPTION_KEY) ''active'')"
    using drifted_sel(7) [OF d] sub by simp
  with run trial have "refreshStatus env ?w0 = checkLocalTrial env (local_storage w TRIAL_KEY) w4"
    by (simp add: localFallback_def)
  with try_stale [OF bypass] have "getUnifiedSubscriptionStatus env forceRefresh w
      = checkLocalTrial env (local_storage w TRIAL_KEY) w4"
    by (simp add: getUnifiedSubscriptionStatus_def io_catch_def checkLocalTrial_eq)
  with d show ?thesis by blast
qed

text \<open>
  Claim C5. Let the cache be bypassed, no storage call reject, no server answer report an
  active subscription or an existing trial, and the stored subscription be not active. Then
  for a stored trial record whose \<^verbatim>\<open>trialEndsAt\<close> parses to \<open>ends\<close>, the status returned is the
  \<^verbatim>\<open>trial\<close> status with \<^verbatim>\<open>isTrialing = true\<close> exactly when the clock read of line 238 (the
  second read of the call) is strictly before \<open>ends\<close>, and the \<^verbatim>\<open>trial_expired\<close> status with
  \<^verbatim>\<open>isTrialing = false\<close> exactly when it is at or after \<open>ends\<close>: the interval is closed-open.
\<close>

theorem C5_trial_expiry_boundary:
  assumes bypass: "\<not> cache_is_fresh forceRefresh (clock_oracle env (clock_reads w)) w"
    and storage: "\<forall>k. storage_oracle env k = None"
    and quiet: "\<forall>n req r d. fetch_oracle env n req = Resolves r \<and> response_ok r \<and> payload r = Json d
                  \<longrightarrow> \<not> truthy (field d ''active'') \<and> \<not> truthy (field d ''hasTrial'')"
    and sub: "\<not> truthy (field (local_storage w SUBSCRIPTION_KEY) ''active'')"
    and trial: "truthy (local_storage w TRIAL_KEY)"
    and parse: "newDate env (field (local_storage w TRIAL_KEY) ''trialEndsAt'') = Some ends"
  shows "\<exists>st. fst (getUnifiedSubscriptionStatus env forceRefresh w) = Inr st
           \<and> st = (if clock_oracle env (Suc (clock_reads w)) < ends
                   then status_trial_active (field (local_storage w TRIAL_KEY) ''trialEndsAt'')
                   else status_trial_expired (field (local_storage w TRIAL_KEY) ''trialEndsAt''))
           \<and> ((field st ''plan'' = JStr ''trial'' \<and> field st ''isTrialing'' = JBool True)
                = (clock_oracle env (Suc (clock_reads w)) < ends))
           \<and> ((field st ''plan'' = JStr ''trial_expired'' \<and> field st ''isTrialing'' = JBool False)
                = (ends \<le> clock_oracle env (Suc (clock_reads w))))
           \<and> field st ''active'' = JBool False"
proof -
  from quiet_local_trial [OF bypass storage quiet sub trial] obtain w4 where
    run: "getUnifiedSubscriptionStatus env forceRefresh w = checkLocalTrial env (local_storage w TRIAL_KEY) w4"
    and d: "drifted (w\<lparr>clock_reads := Suc (clock_reads w)\<rparr>) w4"
    by blast
  have "clock_reads w4 = Suc (clock_reads w)"
    using drifted_sel(1) [OF d] by simp
  with run parse show ?thesis
    by (simp add: checkLocalTrial_eq status_trial_active_def status_trial_expired_def)
qed

text \<open>
  Witness for C5: off line with a stored trial that ends on 2023-11-17; trialing when the
  clock is before the end, expired when the clock is exactly at the end.
\<close>

theorem C5_trial_expiry_boundary_witness:
  "newDate offline_env (field (local_storage (trial_world (JStr ''2023-11-17T00:00:00.000Z'')) TRIAL_KEY)
      ''trialEndsAt'') = Some 1700179200000
   \<and> clock_oracle offline_env (Suc 0) < 1700179200000
   \<and> fst (getUnifiedSubscriptionStatus offline_env False (trial_world (JStr ''2023-11-17T00:00:00.000Z'')))
       = Inr (status_trial_active (JStr ''2023-11-17T00:00:00.000Z''))
   \<and> clock_oracle boundary_env (Suc 0) = 1700179200000
   \<and> fst (getUnifiedSubscriptionStatus boundary_env False (trial_world (JStr ''2023-11-17T00:00:00.000Z'')))
       = Inr (status_trial_expired (JStr ''2023-11-17T00:00:00.000Z''))"
proof -
  let ?w = "trial_world (JStr ''2023-11-17T00:00:00.000Z'')"
  have w: "clock_reads ?w = 0" "truthy (local_storage ?w TRIAL_KEY)"
    "\<not> truthy (field (local_storage ?w SUBSCRIPTION_KEY) ''active'')"
    "field (local_storage ?w TRIAL_KEY) ''trialEndsAt'' = JStr ''2023-11-17T00:00:00.000Z''"
    by (simp_all add: example_defs boundary_env_def TRIAL_KEY_def SUBSCRIPTION_KEY_def)
  have e1: "\<not> cache_is_fresh False (clock_oracle offline_env (clock_reads ?w)) ?w"
    "\<forall>k. storage_oracle offline_env k = None"
    "\<forall>n req r d. fetch_oracle offline_env n req = Resolves r \<and> response_ok r \<and> payload r = Json d
        \<longrightarrow> \<not> truthy (field d ''active'') \<and> \<not> truthy (field d ''hasTrial'')"
    "newDate offline_env (field (local_storage ?w TRIAL_KEY) ''trialEndsAt'') = Some 1700179200000"
    "clock_oracle offline_env (Suc 0) < 1700179200000"
    by (simp_all add: w cache_is_fresh_def) (simp_all add: example_defs boundary_env_def)
  have e2: "\<not> cache_is_fresh False (clock_oracle boundary_env (clock_reads ?w)) ?w"
    "\<forall>k. storage_oracle boundary_env k = None"
    "\<forall>n req r d. fetch_oracle boundary_env n req = Resolves r \<and> response_ok r \<and> payload r = Json d
        \<longrightarrow> \<not> truthy (field d ''active'') \<and> \<not> truthy (field d ''hasTrial'')"
    "newDate boundary_env (field (local_storage ?w TRIAL_KEY) ''trialEndsAt'') = Some 1700179200000"
    "clock_oracle boundary_env (Suc 0) = 1700179200000"
    by (simp_all add: w cache_is_fresh_def) (simp_all add: example_defs boundary_env_def)
  from C5_trial_expiry_boundary [OF e1(1) e1(2) e1(3) w(3) w(2) e1(4)]
       C5_trial_expiry_boundary [OF e2(1) e2(2) e2(3) w(3) w(2) e2(4)]
       e1(4,5) e2(5)
  show ?thesis
    by (simp add: w)
qed

text \<open>
  Claim C6. Under the same hypotheses, for a stored trial record whose \<^verbatim>\<open>trialEndsAt\<close> does
  not parse, the status returned is \<^verbatim>\<open>trial_expired\<close> with \<^verbatim>\<open>isTrialing = false\<close>; the
  stored trial record is as before; and the call makes no event that writes or removes the
  trial record and no request to \<^verbatim>\<open>/trial/check\<close> or \<^verbatim>\<open>/trial/register\<close>.
\<close>

theorem C6_corrupt_trial_date:
  assumes bypass: "\<not> cache_is_fresh forceRefresh (clock_oracle env (clock_reads w)) w"
    and storage: "\<forall>k. storage_oracle env k = None"
    and quiet: "\<forall>n req r d. fetch_oracle env n req = Resolves r \<and> response_ok r \<and> payload r = Json d
                  \<longrightarrow> \<not> truthy (field d ''active'') \<and> \<not> truthy (field d ''hasTrial'')"
    and sub: "\<not> truthy (field (local_storage w SUBSCRIPTION_KEY) ''active'')"
    and trial: "truthy (local_storage w TRIAL_KEY)"
    and corrupt: "newDate env (field (local_storage w TRIAL_KEY) ''trialEndsAt'') = None"
  shows "\<exists>st w' evs. getUnifiedSubscriptionStatus env forceRefresh w = (Inr st, w')
           \<and> st = status_corrupted_date (field (local_storage w TRIAL_KEY) ''trialEndsAt'')
           \<and> field st ''plan'' = JStr ''trial_expired'' \<and> field st ''isTrialing'' = JBool False
           \<and> local_storage w' TRIAL_KEY = local_storage w TRIAL_KEY
           \<and> trace w' = trace w @ evs
           \<and> list_all (\<lambda>e. \<not> touches_trial e) evs
           \<and> list_all (\<lambda>e. \<not> issues_trial e) evs"
proof -
  let ?w0 = "w\<lparr>clock_reads := Suc (clock_reads w)\<rparr>"
  from quiet_local_trial [OF bypass storage quiet sub trial] obtain w4 where
    run: "getUnifiedSubscriptionStatus env forceRefresh w = checkLocalTrial env (local_storage w TRIAL_KEY) w4"
    and d: "drifted ?w0 w4"
    by blast
  from drifted_sel(8) [OF d] obtain evs where
    evs: "trace w4 = trace w @ evs" "list_all harmless evs"
    by auto
  have quiet_evs: "list_all (\<lambda>e. \<not> touches_trial e) evs" "list_all (\<lambda>e. \<not> issues_trial e) evs"
    using evs(2) by (simp_all add: list_all_iff harmless_def)
  have kept: "local_storage w4 TRIAL_KEY = local_storage w TRIAL_KEY"
    using drifted_sel(5) [OF d] by simp
  from run corrupt kept evs(1) quiet_evs show ?thesis
    by (simp add: checkLocalTrial_eq status_corrupted_date_def)
qed

text \<open>Witness for C6: off line with a stored trial record whose end date is not a date.\<close>

theorem C6_corrupt_trial_date_witness:
  "newDate offline_env (field (local_storage (trial_world (JStr ''not a date'')) TRIAL_KEY) ''trialEndsAt'')
     = None
   \<and> fst (getUnifiedSubscriptionStatus offline_env False (trial_world (JStr ''not a date'')))
       = Inr (status_corrupted_date (JStr ''not a date''))
   \<and> local_storage (snd (getUnifiedSubscriptionStatus offline_env False (trial_world (JStr ''not a date''))))
        TRIAL_KEY = stored_trial (JStr ''not a date'')"
proof -
  let ?w = "trial_world (JStr ''not a date'')"
  have w: "clock_reads ?w = 0" "truthy (local_storage ?w TRIAL_KEY)"
    "\<not> truthy (field (local_storage ?w SUBSCRIPTION_KEY) ''active'')"
    "field (local_storage ?w TRIAL_KEY) ''trialEndsAt'' = JStr ''not a date''"
    "local_storage ?w TRIAL_KEY = stored_trial (JStr ''not a date'')"
    by (simp_all add: example_defs TRIAL_KEY_def SUBSCRIPTION_KEY_def)
  have e1: "\<not> cache_is_fresh False (clock_oracle offline_env (clock_reads ?w)) ?w"
    "\<forall>k. storage_oracle offline_env k = None"
    "\<forall>n req r d. fetch_oracle offline_env n req = Resolves r \<and> response_ok r \<and> payload r = Json d
        \<longrightarrow> \<not> truthy (field d ''active'') \<and> \<not> truthy (field d ''hasTrial'')"
    "newDate offline_env (field (local_storage ?w TRIAL_KEY) ''trialEndsAt'') = None"
    by (simp_all add: w cache_is_fresh_def) (simp_all add: example_defs)
  have ends: "field (stored_trial (JStr ''not a date'')) ''trialEndsAt'' = JStr ''not a date''"
    by (simp add: stored_trial_def)
  from C6_corrupt_trial_date [OF e1(1) e1(2) e1(3) w(3) w(2) e1(4)] e1(4)
  show ?thesis
    by (auto simp: w ends)
qed

lemma denied_run:
  assumes bypass: "\<not> cache_is_fresh forceRefresh (clock_oracle env (clock_reads w)) w"
    and storage: "\<forall>k. storage_oracle env k = None"
    and quiet: "\<forall>n req r d. fetch_oracle env n req = Resolves r \<and> response_ok r \<and> payload r = Json d
                  \<longrightarrow> \<not> truthy (field d ''active'') \<and> \<not> truthy (field d ''hasTrial'')"
    and sub: "\<not> truthy (field (local_storage w SUBSCRIPTION_KEY) ''active'')"
    and no_trial: "\<not> truthy (local_storage w TRIAL_KEY)"
    and tok: "truthy (local_storage w DEVICE_TOKEN_KEY)"
    and denial: "\<forall>n. fetch_oracle env n
                   (trial_request ''/trial/check'' (JObj [(''deviceToken'', local_storage w DEVICE_TOKEN_KEY)]))
                 = Resolves r"
      "response_ok r" "payload r = Json d" "d \<noteq> JNull" "d \<noteq> JUndefined"
      "\<not> truthy (field d ''allowed'')"
  shows "\<exists>w' evs. getUnifiedSubscriptionStatus env forceRefresh w
                    = (Inr (status_trial_denied (precheck_details d)), w')
           \<and> statusCache w' = status_trial_denied (precheck_details d)
           \<and> local_storage w' TRIAL_KEY = local_storage w TRIAL_KEY
           \<and> local_storage w' DEVICE_TOKEN_KEY = local_storage w DEVICE_TOKEN_KEY
           \<and> \<not> truthy (field (local_storage w' SUBSCRIPTION_KEY) ''active'')
           \<and> trace w' = trace w @ evs
           \<and> list_all (\<lambda>e. \<not> touches_trial e) evs"
proof -
  let ?w0 = "w\<lparr>clock_reads := Suc (clock_reads w)\<rparr>"
  let ?tok = "local_storage w DEVICE_TOKEN_KEY"
  let ?req = "trial_request ''/trial/check'' (JObj [(''deviceToken'', ?tok)])"
  let ?st = "status_trial_denied (precheck_details d)"
  from quiet_refresh [OF storage quiet, of ?w0] obtain w4 where
    run: "refreshStatus env ?w0 =
            localFallback env (local_storage ?w0 DEVICE_TOKEN_KEY)
              (local_storage w4 SUBSCRIPTION_KEY, local_storage ?w0 TRIAL_KEY) w4"
    and d: "drifted ?w0 w4"
    by blast
  have sub4: "\<not> truthy (field (local_storage w4 SUBSCRIPTION_KEY) ''active'')"
    using drifted_sel(7) [OF d] sub by simp
  from drifted_sel(8) [OF d] obtain evs where
    evs: "trace w4 = trace w @ evs" "list_all harmless evs"
    by auto
  let ?w' = "w4\<lparr>fetches := Suc (fetches w4), trace := trace w4 @ [Fetched ?req (Resolves r)],
                 statusCache := ?st, cacheTimestamp := clock_oracle env (clock_reads w4),
                 clock_reads := Suc (clock_reads w4)\<rparr>"
  have pre: "trialPrecheck env ?tok w4 = (Inr (Some ?st), ?w')"
    using tok denial
    by (simp add: trialPrecheck_def io_defs fetch_def response_json_def get_prop_def
          cache_and_return_def Let_def)
  with run sub4 no_trial have "refreshStatus env ?w0 = (Inr ?st, ?w')"
    by (simp add: localFallback_def io_bind_def io_return_def)
  with try_stale [OF bypass] have result: "getUnifiedSubscriptionStatus env forceRefresh w = (Inr ?st, ?w')"
    by (simp add: getUnifiedSubscriptionStatus_def io_catch_def)
  have "list_all (\<lambda>e. \<not> touches_trial e) (evs @ [Fetched ?req (Resolves r)])"
    using evs(2) by (simp add: list_all_iff harmless_def)
  moreover have "trace ?w' = trace w @ (evs @ [Fetched ?req (Resolves r)])"
    using evs(1) by simp
  moreover have "local_storage ?w' TRIAL_KEY = local_storage w TRIAL_KEY"
    "local_storage ?w' DEVICE_TOKEN_KEY = local_storage w DEVICE_TOKEN_KEY"
    using drifted_sel(5,6) [OF d] by simp_all
  moreover have "statusCache ?w' = ?st" by simp
  moreover have "\<not> truthy (field (local_storage ?w' SUBSCRIPTION_KEY) ''active'')"
    using sub4 by simp
  ultimately show ?thesis
    using result by blast
qed

text \<open>
  Claim C8. Let the cache be bypassed, no storage call reject, no server answer report an
  active subscription or an existing trial, the stored subscription be not active, no
  trial record be stored and a device token be stored. If the pre-check \<^verbatim>\<open>/trial/check\<close>
  always answers 2xx with a JSON body whose \<^verbatim>\<open>allowed\<close> is falsy, the status returned is
  \<^verbatim>\<open>trial_denied\<close>; its \<^verbatim>\<open>errorDetails\<close> is one message for the reason
  \<^verbatim>\<open>device_already_used\<close> and another for every other reason; the trial record is as
  before and no event writes it; and every further call from the resulting world, forced
  or not, returns the same status.
\<close>

theorem C8_trial_denied:
  assumes bypass: "\<not> cache_is_fresh forceRefresh (clock_oracle env (clock_reads w)) w"
    and storage: "\<forall>k. storage_oracle env k = None"
    and quiet: "\<forall>n req r d. fetch_oracle env n req = Resolves r \<and> response_ok r \<and> payload r = Json d
                  \<longrightarrow> \<not> truthy (field d ''active'') \<and> \<not> truthy (field d ''hasTrial'')"
    and sub: "\<not> truthy (field (local_storage w SUBSCRIPTION_KEY) ''active'')"
    and no_trial: "\<not> truthy (local_storage w TRIAL_KEY)"
    and tok: "truthy (local_storage w DEVICE_TOKEN_KEY)"
    and denial: "\<forall>n. fetch_oracle env n
                   (trial_request ''/trial/check'' (JObj [(''deviceToken'', local_storage w DEVICE_TOKEN_KEY)]))
                 = Resolves r"
      "response_ok r" "payload r = Json d" "d \<noteq> JNull" "d \<noteq> JUndefined"
      "\<not> truthy (field d ''allowed'')"
  shows "\<exists>w' evs. getUnifiedSubscriptionStatus env forceRefresh w
                    = (Inr (status_trial_denied (precheck_details d)), w')
           \<and> field (status_trial_denied (precheck_details d)) ''plan'' = JStr ''trial_denied''
           \<and> field (status_trial_denied (precheck_details d)) ''errorDetails'' =
               JStr (if field d ''reason'' = JStr ''device_already_used''
                     then ''This device has already used a free trial''
                     else ''A trial has already been used from this network'')
           \<and> local_storage w' TRIAL_KEY = local_storage w TRIAL_KEY
           \<and> trace w' = trace w @ evs
           \<and> list_all (\<lambda>e. \<not> touches_trial e) evs
           \<and> (\<forall>again. fst (getUnifiedSubscriptionStatus env again w')
                        = Inr (status_trial_denied (precheck_details d)))"
proof -
  let ?st = "status_trial_denied (precheck_details d)"
  from denied_run [OF assms] obtain w' evs where
    first: "getUnifiedSubscriptionStatus env forceRefresh w = (Inr ?st, w')"
    and w': "statusCache w' = ?st" "local_storage w' TRIAL_KEY = local_storage w TRIAL_KEY"
      "local_storage w' DEVICE_TOKEN_KEY = local_storage w DEVICE_TOKEN_KEY"
      "\<not> truthy (field (local_storage w' SUBSCRIPTION_KEY) ''active'')"
    and evs: "trace w' = trace w @ evs" "list_all (\<lambda>e. \<not> touches_trial e) evs"
    by blast
  have repeated: "fst (getUnifiedSubscriptionStatus env again w') = Inr ?st" for again
  proof (cases "cache_is_fresh again (clock_oracle env (clock_reads w')) w'")
    case True
    from try_fresh [OF True] w'(1) show ?thesis
      by (simp add: getUnifiedSubscriptionStatus_def io_catch_def)
  next
    case False
    from denied_run [OF False storage quiet w'(4), of r d] no_trial tok denial w'(2,3)
    show ?thesis by auto
  qed
  have "field ?st ''plan'' = JStr ''trial_denied''"
    "field ?st ''errorDetails'' =
       JStr (if field d ''reason'' = JStr ''device_already_used''
             then ''This device has already used a free trial''
             else ''A trial has already been used from this network'')"
    by (simp_all add: status_trial_denied_def precheck_details_def)
  with first w'(2) evs repeated show ?thesis
    by blast
qed

text \<open>
  Witness for C8: a fresh installation on a server that answers the pre-check with
  \<^verbatim>\<open>{allowed: false, reason: "device_already_used"}\<close>; the first call and two further calls.
\<close>

theorem C8_trial_denied_witness:
  "fst (getUnifiedSubscriptionStatus denying_env False fresh_world)
     = Inr (status_trial_denied ''This device has already used a free trial'')
   \<and> local_storage (snd (getUnifiedSubscriptionStatus denying_env False fresh_world)) TRIAL_KEY = JUndefined
   \<and> fst (getUnifiedSubscriptionStatus denying_env True
            (snd (getUnifiedSubscriptionStatus denying_env False fresh_world)))
     = Inr (status_trial_denied ''This device has already used a free trial'')
   \<and> fst (getUnifiedSubscriptionStatus denying_env False
            (snd (getUnifiedSubscriptionStatus denying_env False fresh_world)))
     = Inr (status_trial_denied ''This device has already used a free trial'')"
proof -
  let ?d = "JObj [(''allowed'', JBool False), (''reason'', JStr ''device_already_used''),
                  (''usedAt'', JStr ''2023-11-17T00:00:00.000Z'')]"
  let ?r = "Response 200 ''OK'' (Json ?d)"
  have w: "truthy (local_storage fresh_world DEVICE_TOKEN_KEY)"
    "\<not> truthy (local_storage fresh_world TRIAL_KEY)"
    "\<not> truthy (field (local_storage fresh_world SUBSCRIPTION_KEY) ''active'')"
    "local_storage fresh_world TRIAL_KEY = JUndefined"
    by (simp_all add: fresh_world_def TRIAL_KEY_def SUBSCRIPTION_KEY_def DEVICE_TOKEN_KEY_def)
  have e: "\<not> cache_is_fresh False (clock_oracle denying_env (clock_reads fresh_world)) fresh_world"
    "\<forall>k. storage_oracle denying_env k = None"
    "\<forall>n req r d. fetch_oracle denying_env n req = Resolves r \<and> response_ok r \<and> payload r = Json d
        \<longrightarrow> \<not> truthy (field d ''active'') \<and> \<not> truthy (field d ''hasTrial'')"
    "\<forall>n. fetch_oracle denying_env n
           (trial_request ''/trial/check'' (JObj [(''deviceToken'', local_storage fresh_world DEVICE_TOKEN_KEY)]))
         = Resolves ?r"
    by (auto simp: cache_is_fresh_def example_defs denying_env_def trial_request_def)
  have d: "response_ok ?r" "payload ?r = Json ?d" "?d \<noteq> JNull" "?d \<noteq> JUndefined"
    "\<not> truthy (field ?d ''allowed'')"
    "precheck_details ?d = ''This device has already used a free trial''"
    by (simp_all add: response_ok_def precheck_details_def)
  from C8_trial_denied [OF e(1) e(2) e(3) w(3) w(2) w(1) e(4) d(1) d(2) d(3) d(4) d(5)]
  obtain w' where
    run: "getUnifiedSubscriptionStatus denying_env False fresh_world
            = (Inr (status_trial_denied (precheck_details ?d)), w')"
    and kept: "local_storage w' TRIAL_KEY = local_storage fresh_world TRIAL_KEY"
    and again: "\<forall>again. fst (getUnifiedSubscriptionStatus denying_env again w')
                 = Inr (status_trial_denied (precheck_details ?d))"
    by blast
  from run kept again show ?thesis
    by (simp add: d(6) w(4))
qed

text \<open>
  Claim C2, evaluated on a fresh installation that is off line (every \<^verbatim>\<open>fetch\<close> rejects
  with \<^verbatim>\<open>Failed to fetch\<close>). \<^verbatim>\<open>getUnifiedSubscriptionStatus\<close> returns a status with plan
  \<^verbatim>\<open>error\<close>, as the claim says; its message is \<^verbatim>\<open>Unable to verify trial status\<close>, while
  \<^verbatim>\<open>canUseExtension\<close> tests for the message \<^verbatim>\<open>Error starting trial\<close>, so it answers
  \<^verbatim>\<open>{canUse: false, reason: 'trial_expired'}\<close> and not the \<^verbatim>\<open>trial_fallback\<close> of the claim.
\<close>

theorem C2_offline_new_user_is_blocked:
  "fst (getUnifiedSubscriptionStatus offline_env False fresh_world)
     = Inr (status_unverified ''Failed to fetch'')
   \<and> field (status_unverified ''Failed to fetch'') ''plan'' = JStr ''error''
   \<and> field (status_unverified ''Failed to fetch'') ''message'' = JStr ''Unable to verify trial status''
   \<and> fst (canUseExtension offline_env fresh_world)
     = Inr (gate_result False ''trial_expired'' (status_unverified ''Failed to fetch''))"
  by (simp add: run_defs example_defs canUseExtension_def isServerDenial_def gate_result_def)

end
